theory Spec2Isabelle
  imports Complex_Main
begin

section \<open>Values of the dataset and of the result tables\<close>

text \<open>
  A Python float: a finite real, an infinity or NaN. The comparison \<open>val < 0.05\<close> of the
  source is \<open>float_lt\<close>: every comparison with NaN is false.
\<close>

datatype pyfloat = Fin real | PInf | NInf | NaN

fun float_lt :: "pyfloat \<Rightarrow> pyfloat \<Rightarrow> bool" where
  "float_lt (Fin a) (Fin b) = (a < b)"
| "float_lt (Fin a) PInf = True"
| "float_lt NInf (Fin b) = True"
| "float_lt NInf PInf = True"
| "float_lt _ _ = False"

fun float_eq :: "pyfloat \<Rightarrow> pyfloat \<Rightarrow> bool" where
  "float_eq (Fin a) (Fin b) = (a = b)"
| "float_eq PInf PInf = True"
| "float_eq NInf NInf = True"
| "float_eq _ _ = False"

text \<open>
  A cell of the dataset: a label, a number, or a missing value. \<open>cell_eq\<close> is the
  elementwise \<open>==\<close> of a column with a value: a missing value and NaN are equal to nothing,
  not even to themselves.
\<close>

datatype cell = Str string | Num pyfloat | NoneV

fun cell_eq :: "cell \<Rightarrow> cell \<Rightarrow> bool" where
  "cell_eq (Str a) (Str b) = (a = b)"
| "cell_eq (Num a) (Num b) = float_eq a b"
| "cell_eq _ _ = False"

datatype 'e error = KeyError string | Raised 'e

section \<open>The dataset: the operations of the data frame that the source uses\<close>

type_synonym row = "string \<Rightarrow> cell"

record dataframe =
  df_columns :: "string list"
  df_rows :: "row list"

text \<open>\<open>df[name]\<close>: the column, or KeyError when the frame has no such column.\<close>

definition column :: "dataframe \<Rightarrow> string \<Rightarrow> cell list" where
  "column df name = map (\<lambda>r. r name) (df_rows df)"

definition getitem_col :: "dataframe \<Rightarrow> string \<Rightarrow> 'e error + cell list" where
  "getitem_col df name =
     (if name \<in> set (df_columns df) then Inr (column df name) else Inl (KeyError name))"

text \<open>\<open>series.unique()\<close>: the distinct values in the order of their first occurrence.\<close>

fun unique :: "'a list \<Rightarrow> 'a list" where
  "unique [] = []"
| "unique (x # xs) = x # filter (\<lambda>y. y \<noteq> x) (unique xs)"

text \<open>\<open>series == value\<close>: the boolean mask.\<close>

definition eq_mask :: "cell list \<Rightarrow> cell \<Rightarrow> bool list" where
  "eq_mask col v = map (\<lambda>c. cell_eq c v) col"

text \<open>\<open>df[mask]\<close>: the rows at which the mask is true.\<close>

definition getitem_mask :: "dataframe \<Rightarrow> bool list \<Rightarrow> dataframe" where
  "getitem_mask df bmask = df\<lparr>df_rows := map fst (filter snd (zip (df_rows df) bmask))\<rparr>"

text \<open>\<open>df[df[cat_var] == category][variable]\<close>, evaluated left to right.\<close>

definition select_group :: "dataframe \<Rightarrow> string \<Rightarrow> cell \<Rightarrow> string \<Rightarrow> 'e error + cell list" where
  "select_group df cat_var category variable =
     (case getitem_col df cat_var of
        Inl e \<Rightarrow> Inl e
      | Inr col \<Rightarrow> getitem_col (getitem_mask df (eq_mask col category)) variable)"

text \<open>\<open>[df[df[cat_var] == category][variable] for category in categories]\<close>.\<close>

fun collect_groups :: "dataframe \<Rightarrow> string \<Rightarrow> cell list \<Rightarrow> string \<Rightarrow> 'e error + cell list list" where
  "collect_groups df cat_var [] variable = Inr []"
| "collect_groups df cat_var (category # rest) variable =
     (case select_group df cat_var category variable of
        Inl e \<Rightarrow> Inl e
      | Inr g \<Rightarrow>
          (case collect_groups df cat_var rest variable of
             Inl e \<Rightarrow> Inl e
           | Inr gs \<Rightarrow> Inr (g # gs)))"

section \<open>Python dictionaries\<close>

text \<open>
  A dictionary keeps its keys in insertion order; storing under a key that is present
  replaces the value where the key stands.
\<close>

type_synonym ('k, 'v) dict = "('k \<times> 'v) list"

fun dict_set :: "('k, 'v) dict \<Rightarrow> 'k \<Rightarrow> 'v \<Rightarrow> ('k, 'v) dict" where
  "dict_set [] k v = [(k, v)]"
| "dict_set ((k', v') # d) k v =
     (if k' = k then (k, v) # d else (k', v') # dict_set d k v)"

definition dict_get :: "('k, 'v) dict \<Rightarrow> 'k \<Rightarrow> 'v option" where
  "dict_get d k = map_of d k"

type_synonym entry = "(string, pyfloat) dict"
type_synonym results = "(string, (string, entry) dict) dict"

text \<open>
  The three lines that every rank test runs after a statistic was computed:
  \<open>if cat_var not in results: results[cat_var] = {}\<close> and then
  \<open>results[cat_var][variable] = entry\<close>.
\<close>

definition store_result :: "results \<Rightarrow> string \<Rightarrow> string \<Rightarrow> entry \<Rightarrow> results" where
  "store_result results cat_var variable e =
     (let results1 = (case dict_get results cat_var of
                        None \<Rightarrow> dict_set results cat_var []
                      | Some _ \<Rightarrow> results)
      in case dict_get results1 cat_var of
           None \<Rightarrow> results1
         | Some inner \<Rightarrow> dict_set results1 cat_var (dict_set inner variable e))"

section \<open>The statistic computations of the library\<close>

text \<open>
  \<open>mannwhitneyu\<close>, \<open>kruskal\<close> and \<open>f_oneway\<close> are the library's; the engines are
  parametrised by them. Each returns the statistic and the p-value, or raises.
\<close>

datatype alternative = TwoSided | Less | Greater

type_synonym 'e mannwhitneyu = "cell list \<Rightarrow> cell list \<Rightarrow> alternative \<Rightarrow> 'e + pyfloat \<times> pyfloat"
type_synonym 'e ktest = "cell list list \<Rightarrow> 'e + pyfloat \<times> pyfloat"

section \<open>Result tables and their styling\<close>

text \<open>
  \<open>pd.DataFrame(d).T\<close> for a dictionary of dictionaries: one row per key of \<open>d\<close>, in the
  order of the keys; the columns are the keys of the inner dictionaries; a cell that an
  inner dictionary does not give is NaN.
\<close>

type_synonym 'k table = "('k \<times> entry) list"

definition frame_T :: "('k, entry) dict \<Rightarrow> 'k table" where
  "frame_T d =
     (let cols = unique (concat (map (\<lambda>(k, e). map fst e) d))
      in map (\<lambda>(k, e). (k, map (\<lambda>c. (c, case dict_get e c of None \<Rightarrow> NaN | Some v \<Rightarrow> v)) cols)) d)"

definition table_columns :: "'k table \<Rightarrow> string list" where
  "table_columns t = (case t of [] \<Rightarrow> [] | (k, r) # _ \<Rightarrow> map fst r)"

text \<open>
  A styler holds the table and the styling functions registered on it, each with the
  column it is restricted to; \<open>style_map\<close> is \<open>df.style.map(f, subset=pd.IndexSlice[:, col])\<close>.
\<close>

record 'k styler =
  data :: "'k table"
  todo :: "((pyfloat \<Rightarrow> string) \<times> string) list"

definition style_map :: "(pyfloat \<Rightarrow> string) \<Rightarrow> string \<Rightarrow> 'k table \<Rightarrow> 'k styler" where
  "style_map f col t = \<lparr>data = t, todo = [(f, col)]\<rparr>"

definition highlight_significant :: "pyfloat \<Rightarrow> string" where
  "highlight_significant val =
     (if float_lt val (Fin 0.05) then ''background-color: yellow'' else '''')"

text \<open>
  Rendering applies each registered function to the cells of its column and keeps the
  non-empty styles: the result lists (row key, column, style). A column that the table
  does not have is a KeyError.
\<close>

definition apply_style :: "'k table \<Rightarrow> (pyfloat \<Rightarrow> string) \<times> string \<Rightarrow> 'e error + ('k \<times> string \<times> string) list" where
  "apply_style t fc =
     (case fc of (f, col) \<Rightarrow>
        if col \<in> set (table_columns t)
        then Inr (concat (map (\<lambda>(k, r). map (\<lambda>(c, v). (k, c, f v))
                                 (filter (\<lambda>(c, v). c = col \<and> f v \<noteq> '''') r)) t))
        else Inl (KeyError col))"

fun compute_styles :: "'k table \<Rightarrow> ((pyfloat \<Rightarrow> string) \<times> string) list \<Rightarrow> 'e error + ('k \<times> string \<times> string) list" where
  "compute_styles t [] = Inr []"
| "compute_styles t (fc # rest) =
     (case apply_style t fc of
        Inl e \<Rightarrow> Inl e
      | Inr s \<Rightarrow>
          (case compute_styles t rest of
             Inl e \<Rightarrow> Inl e
           | Inr s' \<Rightarrow> Inr (s @ s')))"

definition render :: "'k styler \<Rightarrow> 'e error + ('k \<times> string \<times> string) list" where
  "render st = compute_styles (data st) (todo st)"

text \<open>
  The dictionary comprehension of the table construction,
  \<open>{(cat_var, variable): results[cat_var].get(variable, {}) for cat_var in ... for variable in ...}\<close>:
  \<open>results[cat_var]\<close> raises KeyError for a field without results.
\<close>

fun comp_vars :: "results \<Rightarrow> string \<Rightarrow> string list \<Rightarrow> (string \<times> string, entry) dict
    \<Rightarrow> 'e error + (string \<times> string, entry) dict" where
  "comp_vars results cat_var [] acc = Inr acc"
| "comp_vars results cat_var (variable # rest) acc =
     (case dict_get results cat_var of
        None \<Rightarrow> Inl (KeyError cat_var)
      | Some inner \<Rightarrow>
          comp_vars results cat_var rest
            (dict_set acc (cat_var, variable)
               (case dict_get inner variable of None \<Rightarrow> [] | Some e \<Rightarrow> e)))"

fun comp_cats :: "results \<Rightarrow> string list \<Rightarrow> string list \<Rightarrow> (string \<times> string, entry) dict
    \<Rightarrow> 'e error + (string \<times> string, entry) dict" where
  "comp_cats results [] numerical_variable acc = Inr acc"
| "comp_cats results (cat_var # rest) numerical_variable acc =
     (case comp_vars results cat_var numerical_variable acc of
        Inl e \<Rightarrow> Inl e
      | Inr acc' \<Rightarrow> comp_cats results rest numerical_variable acc')"

definition results_table :: "results \<Rightarrow> string list \<Rightarrow> string list \<Rightarrow> 'e error + (string \<times> string) table" where
  "results_table results categorical_vars numerical_variable =
     (case comp_cats results categorical_vars numerical_variable [] of
        Inl e \<Rightarrow> Inl e
      | Inr d \<Rightarrow> Inr (frame_T d))"

section \<open>mann_whitney_test\<close>

text \<open>The body of the two nested loops, for one field pair.\<close>

definition mw_pair :: "'e mannwhitneyu \<Rightarrow> dataframe \<Rightarrow> string \<Rightarrow> string \<Rightarrow> results \<Rightarrow> 'e error + results" where
  "mw_pair mannwhitneyu df cat_var variable results =
     (case getitem_col df cat_var of
        Inl e \<Rightarrow> Inl e
      | Inr col \<Rightarrow>
          (let categories = unique col in
           if length categories = 2 then
             (case select_group df cat_var (categories ! 0) variable of
                Inl e \<Rightarrow> Inl e
              | Inr group_1 \<Rightarrow>
                  (case select_group df cat_var (categories ! 1) variable of
                     Inl e \<Rightarrow> Inl e
                   | Inr group_2 \<Rightarrow>
                       (case mannwhitneyu group_1 group_2 TwoSided of
                          Inl e \<Rightarrow> Inl (Raised e)
                        | Inr (u_statistic, p_value) \<Rightarrow>
                            Inr (store_result results cat_var variable
                                   [(''U-statistic'', u_statistic), (''p-value'', p_value)]))))
           else Inr results))"

fun mw_vars :: "'e mannwhitneyu \<Rightarrow> dataframe \<Rightarrow> string \<Rightarrow> string list \<Rightarrow> results \<Rightarrow> 'e error + results" where
  "mw_vars mannwhitneyu df cat_var [] results = Inr results"
| "mw_vars mannwhitneyu df cat_var (variable # rest) results =
     (case mw_pair mannwhitneyu df cat_var variable results of
        Inl e \<Rightarrow> Inl e
      | Inr results' \<Rightarrow> mw_vars mannwhitneyu df cat_var rest results')"

fun mw_cats :: "'e mannwhitneyu \<Rightarrow> dataframe \<Rightarrow> string list \<Rightarrow> string list \<Rightarrow> results \<Rightarrow> 'e error + results" where
  "mw_cats mannwhitneyu df [] numerical_variable results = Inr results"
| "mw_cats mannwhitneyu df (cat_var # rest) numerical_variable results =
     (case mw_vars mannwhitneyu df cat_var numerical_variable results of
        Inl e \<Rightarrow> Inl e
      | Inr results' \<Rightarrow> mw_cats mannwhitneyu df rest numerical_variable results')"

definition mann_whitney_test :: "'e mannwhitneyu \<Rightarrow> dataframe \<Rightarrow> string list \<Rightarrow> string list
    \<Rightarrow> 'e error + (string \<times> string) styler" where
  "mann_whitney_test mannwhitneyu df categorical_vars numerical_variable =
     (case mw_cats mannwhitneyu df categorical_vars numerical_variable [] of
        Inl e \<Rightarrow> Inl e
      | Inr results \<Rightarrow>
          (case results_table results categorical_vars numerical_variable of
             Inl e \<Rightarrow> Inl e
           | Inr results_df \<Rightarrow> Inr (style_map highlight_significant ''p-value'' results_df)))"

section \<open>kruskal_wallis_test\<close>

fun kw_vars :: "'e ktest \<Rightarrow> dataframe \<Rightarrow> string \<Rightarrow> cell list \<Rightarrow> string list \<Rightarrow> results \<Rightarrow> 'e error + results" where
  "kw_vars kruskal df cat_var categories [] results = Inr results"
| "kw_vars kruskal df cat_var categories (variable # rest) results =
     (case collect_groups df cat_var categories variable of
        Inl e \<Rightarrow> Inl e
      | Inr groups \<Rightarrow>
          (case kruskal groups of
             Inl e \<Rightarrow> Inl (Raised e)
           | Inr (h_statistic, p_value) \<Rightarrow>
               kw_vars kruskal df cat_var categories rest
                 (store_result results cat_var variable
                    [(''H-statistic'', h_statistic), (''p-value'', p_value)])))"

fun kw_cats :: "'e ktest \<Rightarrow> dataframe \<Rightarrow> string list \<Rightarrow> string list \<Rightarrow> results \<Rightarrow> 'e error + results" where
  "kw_cats kruskal df [] numerical_variable results = Inr results"
| "kw_cats kruskal df (cat_var # rest) numerical_variable results =
     (case getitem_col df cat_var of
        Inl e \<Rightarrow> Inl e
      | Inr col \<Rightarrow>
          (let categories = unique col in
           if length categories \<ge> 3 then
             (case kw_vars kruskal df cat_var categories numerical_variable results of
                Inl e \<Rightarrow> Inl e
              | Inr results' \<Rightarrow> kw_cats kruskal df rest numerical_variable results')
           else kw_cats kruskal df rest numerical_variable results))"

text \<open>The engine returns a styler when there are results and a plain empty frame otherwise.\<close>

datatype 'k returned = Styled "'k styler" | Frame "'k table"

definition kruskal_wallis_test :: "'e ktest \<Rightarrow> dataframe \<Rightarrow> string list \<Rightarrow> string list
    \<Rightarrow> 'e error + (string \<times> string) returned" where
  "kruskal_wallis_test kruskal df categorical_vars numerical_variable =
     (case kw_cats kruskal df categorical_vars numerical_variable [] of
        Inl e \<Rightarrow> Inl e
      | Inr results \<Rightarrow>
          if results \<noteq> [] then
            (case results_table results categorical_vars numerical_variable of
               Inl e \<Rightarrow> Inl e
             | Inr results_df \<Rightarrow> Inr (Styled (style_map highlight_significant ''p-value'' results_df)))
          else Inr (Frame []))"

text \<open>The rows of what the engine returns.\<close>

fun rows_of :: "'k returned \<Rightarrow> 'k table" where
  "rows_of (Styled st) = data st"
| "rows_of (Frame t) = t"

section \<open>anova\<close>

fun anova_vars :: "'e ktest \<Rightarrow> dataframe \<Rightarrow> string \<Rightarrow> string list \<Rightarrow> (string, entry) dict
    \<Rightarrow> 'e error + (string, entry) dict" where
  "anova_vars f_oneway df categorical_variable [] results = Inr results"
| "anova_vars f_oneway df categorical_variable (variable # rest) results =
     (case getitem_col df categorical_variable of
        Inl e \<Rightarrow> Inl e
      | Inr col \<Rightarrow>
          (case collect_groups df categorical_variable (unique col) variable of
             Inl e \<Rightarrow> Inl e
           | Inr groups \<Rightarrow>
               (case f_oneway groups of
                  Inl e \<Rightarrow> Inl (Raised e)
                | Inr (f, p_value) \<Rightarrow>
                    anova_vars f_oneway df categorical_variable rest
                      (dict_set results variable [(''F-Statistics'', f), (''p-value'', p_value)]))))"

definition anova :: "'e ktest \<Rightarrow> dataframe \<Rightarrow> string list \<Rightarrow> string \<Rightarrow> 'e error + string styler" where
  "anova f_oneway df numerical_variable categorical_variable =
     (case anova_vars f_oneway df categorical_variable numerical_variable [] of
        Inl e \<Rightarrow> Inl e
      | Inr results \<Rightarrow> Inr (style_map highlight_significant ''p-value'' (frame_T results)))"

section \<open>The engines as actions on the dataset\<close>

text \<open>
  The same three functions, statement by statement, with the dataset as explicit state:
  an action takes the dataset and returns a value or an exception together with the
  dataset as the action leaves it. The operations of the source on the dataset are
  reads: \<open>df[name]\<close>, and \<open>df[mask][name]\<close>, which builds a filtered copy and reads a
  column of the copy. \<open>library\<close> is a call of the statistics library on the groups,
  \<open>evaluate\<close> a computation on values alone.
\<close>

type_synonym ('e, 'a) action = "dataframe \<Rightarrow> ('e error + 'a) \<times> dataframe"

definition returns :: "'a \<Rightarrow> ('e, 'a) action" where
  "returns a = (\<lambda>df. (Inr a, df))"

definition then_do :: "('e, 'a) action \<Rightarrow> ('a \<Rightarrow> ('e, 'b) action) \<Rightarrow> ('e, 'b) action" where
  "then_do m f = (\<lambda>df. case m df of (Inl e, df') \<Rightarrow> (Inl e, df') | (Inr a, df') \<Rightarrow> f a df')"

definition evaluate :: "'e error + 'a \<Rightarrow> ('e, 'a) action" where
  "evaluate r = (\<lambda>df. (r, df))"

definition library :: "'e + 'a \<Rightarrow> ('e, 'a) action" where
  "library r = (\<lambda>df. (case r of Inl e \<Rightarrow> Inl (Raised e) | Inr a \<Rightarrow> Inr a, df))"

definition read_col :: "string \<Rightarrow> ('e, cell list) action" where
  "read_col name = (\<lambda>df. (getitem_col df name, df))"

definition read_masked_col :: "bool list \<Rightarrow> string \<Rightarrow> ('e, cell list) action" where
  "read_masked_col bmask name = (\<lambda>df. (getitem_col (getitem_mask df bmask) name, df))"

definition read_group :: "string \<Rightarrow> cell \<Rightarrow> string \<Rightarrow> ('e, cell list) action" where
  "read_group cat_var category variable =
     then_do (read_col cat_var) (\<lambda>col. read_masked_col (eq_mask col category) variable)"

fun read_groups :: "string \<Rightarrow> cell list \<Rightarrow> string \<Rightarrow> ('e, cell list list) action" where
  "read_groups cat_var [] variable = returns []"
| "read_groups cat_var (category # rest) variable =
     then_do (read_group cat_var category variable) (\<lambda>g.
     then_do (read_groups cat_var rest variable) (\<lambda>gs.
     returns (g # gs)))"

fun for_each :: "'x list \<Rightarrow> ('x \<Rightarrow> 'r \<Rightarrow> ('e, 'r) action) \<Rightarrow> 'r \<Rightarrow> ('e, 'r) action" where
  "for_each [] body r = returns r"
| "for_each (x # xs) body r = then_do (body x r) (for_each xs body)"

definition mw_pair_run :: "'e mannwhitneyu \<Rightarrow> string \<Rightarrow> string \<Rightarrow> results \<Rightarrow> ('e, results) action" where
  "mw_pair_run mannwhitneyu cat_var variable results =
     then_do (read_col cat_var) (\<lambda>col.
       let categories = unique col in
       if length categories = 2 then
         then_do (read_group cat_var (categories ! 0) variable) (\<lambda>group_1.
         then_do (read_group cat_var (categories ! 1) variable) (\<lambda>group_2.
         then_do (library (mannwhitneyu group_1 group_2 TwoSided)) (\<lambda>(u_statistic, p_value).
         returns (store_result results cat_var variable
                    [(''U-statistic'', u_statistic), (''p-value'', p_value)]))))
       else returns results)"

definition mann_whitney_test_run :: "'e mannwhitneyu \<Rightarrow> string list \<Rightarrow> string list
    \<Rightarrow> ('e, (string \<times> string) styler) action" where
  "mann_whitney_test_run mannwhitneyu categorical_vars numerical_variable =
     then_do (for_each categorical_vars
                (\<lambda>cat_var. for_each numerical_variable (mw_pair_run mannwhitneyu cat_var)) [])
       (\<lambda>results.
     then_do (evaluate (results_table results categorical_vars numerical_variable)) (\<lambda>results_df.
     returns (style_map highlight_significant ''p-value'' results_df)))"

definition kw_pair_run :: "'e ktest \<Rightarrow> string \<Rightarrow> cell list \<Rightarrow> string \<Rightarrow> results \<Rightarrow> ('e, results) action" where
  "kw_pair_run kruskal cat_var categories variable results =
     then_do (read_groups cat_var categories variable) (\<lambda>groups.
     then_do (library (kruskal groups)) (\<lambda>(h_statistic, p_value).
     returns (store_result results cat_var variable
                [(''H-statistic'', h_statistic), (''p-value'', p_value)])))"

definition kw_field_run :: "'e ktest \<Rightarrow> string list \<Rightarrow> string \<Rightarrow> results \<Rightarrow> ('e, results) action" where
  "kw_field_run kruskal numerical_variable cat_var results =
     then_do (read_col cat_var) (\<lambda>col.
       let categories = unique col in
       if length categories \<ge> 3
       then for_each numerical_variable (kw_pair_run kruskal cat_var categories) results
       else returns results)"

definition kruskal_wallis_test_run :: "'e ktest \<Rightarrow> string list \<Rightarrow> string list
    \<Rightarrow> ('e, (string \<times> string) returned) action" where
  "kruskal_wallis_test_run kruskal categorical_vars numerical_variable =
     then_do (for_each categorical_vars (kw_field_run kruskal numerical_variable) []) (\<lambda>results.
       if results \<noteq> [] then
         then_do (evaluate (results_table results categorical_vars numerical_variable)) (\<lambda>results_df.
         returns (Styled (style_map highlight_significant ''p-value'' results_df)))
       else returns (Frame []))"

definition anova_pair_run :: "'e ktest \<Rightarrow> string \<Rightarrow> string \<Rightarrow> (string, entry) dict
    \<Rightarrow> ('e, (string, entry) dict) action" where
  "anova_pair_run f_oneway categorical_variable variable results =
     then_do (read_col categorical_variable) (\<lambda>col.
     then_do (read_groups categorical_variable (unique col) variable) (\<lambda>groups.
     then_do (library (f_oneway groups)) (\<lambda>(f, p_value).
     returns (dict_set results variable [(''F-Statistics'', f), (''p-value'', p_value)]))))"

definition anova_run :: "'e ktest \<Rightarrow> string list \<Rightarrow> string \<Rightarrow> ('e, string styler) action" where
  "anova_run f_oneway numerical_variable categorical_variable =
     then_do (for_each numerical_variable (anova_pair_run f_oneway categorical_variable) [])
       (\<lambda>results. returns (style_map highlight_significant ''p-value'' (frame_T results)))"

section \<open>What the loops read and write, as values\<close>

text \<open>
  The observations of \<open>variable\<close> in the rows whose \<open>cat_var\<close> equals \<open>category\<close>:
  the value of \<open>df[df[cat_var] == category][variable]\<close> when both columns exist.
\<close>

definition group_values :: "dataframe \<Rightarrow> string \<Rightarrow> cell \<Rightarrow> string \<Rightarrow> cell list" where
  "group_values df cat_var category variable =
     column (getitem_mask df (eq_mask (column df cat_var) category)) variable"

text \<open>The two groups that \<open>mann_whitney_test\<close> compares, \<open>group_1\<close> and \<open>group_2\<close>.\<close>

definition two_groups :: "dataframe \<Rightarrow> string \<Rightarrow> string \<Rightarrow> cell list \<times> cell list" where
  "two_groups df cat_var variable =
     (let categories = unique (column df cat_var)
      in (group_values df cat_var (categories ! 0) variable,
          group_values df cat_var (categories ! 1) variable))"

text \<open>The list \<open>groups\<close> of \<open>kruskal_wallis_test\<close> and \<open>anova\<close>: one group per category.\<close>

definition all_groups :: "dataframe \<Rightarrow> string \<Rightarrow> string \<Rightarrow> cell list list" where
  "all_groups df cat_var variable =
     map (\<lambda>category. group_values df cat_var category variable) (unique (column df cat_var))"

text \<open>\<open>results[cat_var][variable]\<close>, when both keys are present.\<close>

definition entry_of :: "results \<Rightarrow> string \<Rightarrow> string \<Rightarrow> entry option" where
  "entry_of results cat_var variable =
     (case dict_get results cat_var of None \<Rightarrow> None | Some inner \<Rightarrow> dict_get inner variable)"

text \<open>The keys of \<open>results[cat_var]\<close>, in their order; none when \<open>cat_var\<close> has no results.\<close>

definition inner_keys :: "results \<Rightarrow> string \<Rightarrow> string list" where
  "inner_keys results cat_var =
     (case dict_get results cat_var of None \<Rightarrow> [] | Some inner \<Rightarrow> map fst inner)"

text \<open>The entries that the two rank tests store for a field pair.\<close>

definition mw_entry :: "'e mannwhitneyu \<Rightarrow> dataframe \<Rightarrow> string \<Rightarrow> string \<Rightarrow> entry" where
  "mw_entry mwu df cat_var variable =
     (case mwu (fst (two_groups df cat_var variable)) (snd (two_groups df cat_var variable)) TwoSided of
        Inl e \<Rightarrow> []
      | Inr (u, p) \<Rightarrow> [(''U-statistic'', u), (''p-value'', p)])"

definition kw_entry :: "'e ktest \<Rightarrow> dataframe \<Rightarrow> string \<Rightarrow> string \<Rightarrow> entry" where
  "kw_entry kruskal df cat_var variable =
     (case kruskal (all_groups df cat_var variable) of
        Inl e \<Rightarrow> []
      | Inr (h, p) \<Rightarrow> [(''H-statistic'', h), (''p-value'', p)])"

text \<open>The entry that \<open>anova\<close> stores for a numerical field.\<close>

definition anova_entry :: "'e ktest \<Rightarrow> dataframe \<Rightarrow> string \<Rightarrow> string \<Rightarrow> entry" where
  "anova_entry f_oneway df cat_var variable =
     (case f_oneway (all_groups df cat_var variable) of
        Inl e \<Rightarrow> []
      | Inr (f, p) \<Rightarrow> [(''F-Statistics'', f), (''p-value'', p)])"

section \<open>Sample data\<close>

text \<open>
  A small dataset and stand-ins for the library's statistic computations, to run the
  engines on concrete input. Both stand-ins raise on observations that are not finite
  numbers. \<open>toy_mwu\<close> raises on an empty sample. \<open>toy_ktest\<close> raises when it is given
  fewer than two groups; when one of its groups is empty it raises nothing and returns
  NaN for the statistic and for the p-value, as the library's \<open>kruskal\<close> and \<open>f_oneway\<close>
  do. Otherwise they return a statistic and a p-value.
\<close>

definition mk_row :: "(string \<times> cell) list \<Rightarrow> row" where
  "mk_row kv name = (case map_of kv name of None \<Rightarrow> NoneV | Some c \<Rightarrow> c)"

definition survey :: dataframe where
  "survey = \<lparr>df_columns = [''region'', ''season'', ''site'', ''zone'', ''ndvi''],
     df_rows =
       [mk_row [(''region'', Str ''A''), (''season'', Str ''w''), (''site'', Str ''s1''),
                (''zone'', Str ''n''), (''ndvi'', Num (Fin 0.2))],
        mk_row [(''region'', Str ''B''), (''season'', Str ''s''), (''site'', Str ''s1''),
                (''zone'', Str ''s''), (''ndvi'', Num (Fin 0.6))],
        mk_row [(''region'', Str ''A''), (''season'', Str ''f''), (''site'', Str ''s1''),
                (''zone'', NoneV), (''ndvi'', Num (Fin 0.3))],
        mk_row [(''region'', Str ''B''), (''season'', Str ''w''), (''site'', Str ''s1''),
                (''zone'', Str ''n''), (''ndvi'', Num (Fin 0.55))]]\<rparr>"

definition numeric_cell :: "cell \<Rightarrow> bool" where
  "numeric_cell c = (case c of Num (Fin x) \<Rightarrow> True | _ \<Rightarrow> False)"

definition toy_mwu :: "string mannwhitneyu" where
  "toy_mwu x y alt =
     (if x = [] \<or> y = [] then Inl ''empty sample''
      else if \<not> list_all numeric_cell (x @ y) then Inl ''non-numeric data''
      else Inr (Fin (real (length x * length y) / 2), Fin (1 / (1 + real (length x + length y)))))"

definition toy_ktest :: "string ktest" where
  "toy_ktest gs =
     (if length gs < 2 then Inl ''too few groups''
      else if [] \<in> set gs then Inr (NaN, NaN)
      else if \<not> list_all numeric_cell (concat gs) then Inl ''non-numeric data''
      else Inr (Fin (real (length gs)), Fin (1 / (1 + real (length (concat gs))))))"

definition sample_table :: "(string \<times> string) table" where
  "sample_table =
     [((''region'', ''ndvi''), [(''U-statistic'', Fin 0), (''p-value'', Fin 0.01)]),
      ((''region'', ''temp''), [(''U-statistic'', Fin 4), (''p-value'', Fin 0.05)]),
      ((''region'', ''rain''), [(''U-statistic'', Fin 3), (''p-value'', NaN)])]"

section \<open>Distinct values, dictionaries and columns\<close>

lemma set_unique: "set (unique xs) = set xs"
  by (induction xs) auto

lemma distinct_unique: "distinct (unique xs)"
  by (induction xs) (auto simp: set_unique)

lemma length_unique: "length (unique xs) = card (set xs)"
  by (metis distinct_card distinct_unique set_unique)

lemma unique_distinct: "distinct xs \<Longrightarrow> unique xs = xs"
proof (induction xs)
  case Nil
  then show ?case by simp
next
  case (Cons x xs)
  then have "filter (\<lambda>y. y \<noteq> x) xs = xs"
    by (auto intro: filter_True)
  with Cons show ?case by simp
qed

lemma dict_get_set: "dict_get (dict_set d k v) k' = (if k' = k then Some v else dict_get d k')"
  by (induction d) (auto simp: dict_get_def)

lemma keys_dict_set:
  "map fst (dict_set d k v) = (if k \<in> set (map fst d) then map fst d else map fst d @ [k])"
  by (induction d) (force+)

lemma dict_get_None_iff: "dict_get d k = None \<longleftrightarrow> k \<notin> set (map fst d)"
  by (simp add: dict_get_def map_of_eq_None_iff)

lemma getitem_col_Inr: "name \<in> set (df_columns df) \<Longrightarrow> getitem_col df name = Inr (column df name)"
  by (simp add: getitem_col_def)

lemma highlight_iff: "highlight_significant v \<noteq> '''' \<longleftrightarrow> float_lt v (Fin 0.05)"
  by (simp add: highlight_significant_def)

section \<open>The significance annotation\<close>

text \<open>
  Claim C8. For every result table that has a p-value column, rendering the styler that
  the engines build (\<open>highlight_significant\<close> restricted to the column \<open>p-value\<close>)
  succeeds, and a cell is marked exactly when it is the p-value cell of a row whose
  p-value is strictly below 0.05; the mark is the yellow background. No cell of another
  column is marked, and a NaN p-value is not marked.
\<close>

theorem annotation_marks_significant_p_values:
  assumes "''p-value'' \<in> set (table_columns t)"
  shows "\<exists>marks. (render (style_map highlight_significant ''p-value'' t) :: 'e error + _) = Inr marks \<and>
     (\<forall>k c s. (k, c, s) \<in> set marks \<longleftrightarrow>
        (c = ''p-value'' \<and> s = ''background-color: yellow'' \<and>
         (\<exists>r v. (k, r) \<in> set t \<and> (c, v) \<in> set r \<and> float_lt v (Fin 0.05))))"
proof -
  let ?f = "highlight_significant"
  let ?marks = "concat (map (\<lambda>(k, r). map (\<lambda>(c, v). (k, c, ?f v))
                   (filter (\<lambda>(c, v). c = ''p-value'' \<and> ?f v \<noteq> '''') r)) t)"
  have run: "(render (style_map ?f ''p-value'' t) :: 'e error + _) = Inr ?marks"
    using assms by (simp add: render_def style_map_def apply_style_def)
  have mem: "(k, c, s) \<in> set ?marks \<longleftrightarrow>
        (c = ''p-value'' \<and> s = ''background-color: yellow'' \<and>
         (\<exists>r v. (k, r) \<in> set t \<and> (c, v) \<in> set r \<and> float_lt v (Fin 0.05)))" for k c s
  proof
    assume "(k, c, s) \<in> set ?marks"
    then obtain r v where "(k, r) \<in> set t" "(c, v) \<in> set r" "c = ''p-value''"
      "?f v \<noteq> ''''" "s = ?f v"
      by auto
    then show "c = ''p-value'' \<and> s = ''background-color: yellow'' \<and>
         (\<exists>r v. (k, r) \<in> set t \<and> (c, v) \<in> set r \<and> float_lt v (Fin 0.05))"
      by (auto simp: highlight_significant_def split: if_splits)
  next
    assume "c = ''p-value'' \<and> s = ''background-color: yellow'' \<and>
         (\<exists>r v. (k, r) \<in> set t \<and> (c, v) \<in> set r \<and> float_lt v (Fin 0.05))"
    then obtain r v where rv: "(k, r) \<in> set t" "(c, v) \<in> set r" "c = ''p-value''"
      "float_lt v (Fin 0.05)" "s = ''background-color: yellow''"
      by auto
    then have "?f v = s" "?f v \<noteq> ''''"
      by (simp_all add: highlight_significant_def)
    with rv have a: "(c, v) \<in> set (filter (\<lambda>(c, v). c = ''p-value'' \<and> ?f v \<noteq> '''') r)"
      by simp
    have b: "(k, c, s) \<in> set (map (\<lambda>(c, v). (k, c, ?f v))
                   (filter (\<lambda>(c, v). c = ''p-value'' \<and> ?f v \<noteq> '''') r))"
    proof -
      have "(k, c, s) = (\<lambda>(c, v). (k, c, ?f v)) (c, v)"
        using \<open>?f v = s\<close> by simp
      then show ?thesis
        unfolding set_map using a by (rule image_eqI)
    qed
    let ?row = "\<lambda>(k, r). map (\<lambda>(c, v). (k, c, ?f v))
                   (filter (\<lambda>(c, v). c = ''p-value'' \<and> ?f v \<noteq> '''') r)"
    from b have b': "(k, c, s) \<in> set (?row (k, r))"
      by simp
    from rv(1) have "?row (k, r) \<in> set (map ?row t)"
      unfolding set_map by (rule imageI)
    then have "set (?row (k, r)) \<in> set ` set (map ?row t)"
      by (rule imageI)
    then show "(k, c, s) \<in> set ?marks"
      unfolding set_concat using b' by (rule UnionI)
  qed
  from run mem show ?thesis by blast
qed

theorem annotation_marks_significant_p_values_witness:
  "''p-value'' \<in> set (table_columns sample_table) \<and>
   (\<exists>marks. (render (style_map highlight_significant ''p-value'' sample_table)
                 :: unit error + _) = Inr marks \<and>
     (\<forall>k c s. (k, c, s) \<in> set marks \<longleftrightarrow>
        (c = ''p-value'' \<and> s = ''background-color: yellow'' \<and>
         (\<exists>r v. (k, r) \<in> set sample_table \<and> (c, v) \<in> set r \<and> float_lt v (Fin 0.05)))))"
proof -
  have h: "''p-value'' \<in> set (table_columns sample_table)"
    by (simp add: table_columns_def sample_table_def)
  from h annotation_marks_significant_p_values [OF h] show ?thesis
    by (rule conjI)
qed

section \<open>Groups and stored results\<close>

lemma mask_rows: "map fst (filter snd (zip xs (map f xs))) = filter f xs"
  by (induction xs) auto

lemma rows_getitem_mask:
  "df_rows (getitem_mask df (eq_mask (column df cat_var) category)) =
     filter (\<lambda>r. cell_eq (r cat_var) category) (df_rows df)"
proof -
  have "eq_mask (column df cat_var) category = map (\<lambda>r. cell_eq (r cat_var) category) (df_rows df)"
    by (simp add: eq_mask_def column_def)
  then show ?thesis
    by (simp add: getitem_mask_def mask_rows)
qed

lemma group_values_eq:
  "group_values df cat_var category variable =
     map (\<lambda>r. r variable) (filter (\<lambda>r. cell_eq (r cat_var) category) (df_rows df))"
  by (simp add: group_values_def column_def rows_getitem_mask[unfolded column_def])

lemma columns_getitem_mask: "df_columns (getitem_mask df m) = df_columns df"
  by (simp add: getitem_mask_def)

lemma select_group_Inr:
  "cat_var \<in> set (df_columns df) \<Longrightarrow> variable \<in> set (df_columns df) \<Longrightarrow>
   select_group df cat_var category variable = Inr (group_values df cat_var category variable)"
  by (simp add: select_group_def getitem_col_def columns_getitem_mask group_values_def)

lemma collect_groups_Inr:
  "cat_var \<in> set (df_columns df) \<Longrightarrow> variable \<in> set (df_columns df) \<Longrightarrow>
   collect_groups df cat_var categories variable =
     Inr (map (\<lambda>category. group_values df cat_var category variable) categories)"
  by (induction categories) (simp_all add: select_group_Inr)

lemma dict_get_Nil: "dict_get [] k = None"
  by (simp add: dict_get_def)

lemma dict_get_Cons: "dict_get ((k, v) # d) k' = (if k' = k then Some v else dict_get d k')"
  by (simp add: dict_get_def)

lemma dict_get_store:
  "dict_get (store_result results c v e) c' = None \<longleftrightarrow> c' \<noteq> c \<and> dict_get results c' = None"
  by (cases "dict_get results c") (auto simp: store_result_def dict_get_set Let_def)

lemma entry_of_store:
  "entry_of (store_result results c v e) c' v' =
     (if c' = c \<and> v' = v then Some e else entry_of results c' v')"
  by (cases "dict_get results c")
     (auto simp: store_result_def entry_of_def dict_get_set dict_get_Cons dict_get_Nil Let_def)

text \<open>The loop body of \<open>mann_whitney_test\<close>, when the columns exist.\<close>

lemma mw_pair_eq:
  assumes "cat_var \<in> set (df_columns df)" "variable \<in> set (df_columns df)"
  shows "mw_pair mwu df cat_var variable results =
     (if card (set (column df cat_var)) = 2 then
        (case mwu (fst (two_groups df cat_var variable)) (snd (two_groups df cat_var variable)) TwoSided of
           Inl e \<Rightarrow> Inl (Raised e)
         | Inr (u, p) \<Rightarrow> Inr (store_result results cat_var variable
                                [(''U-statistic'', u), (''p-value'', p)]))
      else Inr results)"
  using assms
  by (simp add: mw_pair_def getitem_col_def select_group_Inr two_groups_def Let_def length_unique)


lemma mw_vars_run:
  assumes c: "c \<in> set (df_columns df)"
    and vs: "set nums \<subseteq> set (df_columns df)"
    and ok: "card (set (column df c)) = 2 \<longrightarrow>
      (\<forall>v\<in>set nums. \<exists>r. mwu (fst (two_groups df c v)) (snd (two_groups df c v)) TwoSided = Inr r)"
  shows "\<exists>res'. mw_vars mwu df c nums res = Inr res' \<and>
     (\<forall>c' v'. entry_of res' c' v' =
        (if c' = c \<and> v' \<in> set nums \<and> card (set (column df c)) = 2
         then Some (mw_entry mwu df c v') else entry_of res c' v')) \<and>
     (\<forall>c'. dict_get res' c' = None \<longleftrightarrow>
        dict_get res c' = None \<and> \<not> (c' = c \<and> nums \<noteq> [] \<and> card (set (column df c)) = 2))"
  using vs ok
proof (induction nums arbitrary: res)
  case Nil
  then show ?case by simp
next
  case (Cons v vs)
  have v: "v \<in> set (df_columns df)" and vs': "set vs \<subseteq> set (df_columns df)"
    using Cons.prems(1) by auto
  have ok': "card (set (column df c)) = 2 \<longrightarrow>
      (\<forall>v\<in>set vs. \<exists>r. mwu (fst (two_groups df c v)) (snd (two_groups df c v)) TwoSided = Inr r)"
    using Cons.prems(2) by auto
  show ?case
  proof (cases "card (set (column df c)) = 2")
    case False
    then have step: "mw_pair mwu df c v res = Inr res"
      by (simp add: mw_pair_eq [OF c v])
    from Cons.IH [OF vs' ok', of res] False step show ?thesis
      by auto
  next
    case True
    with Cons.prems(2) obtain u p where
      up: "mwu (fst (two_groups df c v)) (snd (two_groups df c v)) TwoSided = Inr (u, p)"
      by fastforce
    let ?res1 = "store_result res c v [(''U-statistic'', u), (''p-value'', p)]"
    have step: "mw_pair mwu df c v res = Inr ?res1"
      using True up by (simp add: mw_pair_eq [OF c v])
    have ent: "mw_entry mwu df c v = [(''U-statistic'', u), (''p-value'', p)]"
      using up by (simp add: mw_entry_def)
    from Cons.IH [OF vs' ok', of ?res1] obtain res' where
      run: "mw_vars mwu df c vs ?res1 = Inr res'"
      and e: "\<And>c' v'. entry_of res' c' v' =
        (if c' = c \<and> v' \<in> set vs \<and> card (set (column df c)) = 2
         then Some (mw_entry mwu df c v') else entry_of ?res1 c' v')"
      and k: "\<And>c'. dict_get res' c' = None \<longleftrightarrow>
        dict_get ?res1 c' = None \<and> \<not> (c' = c \<and> vs \<noteq> [] \<and> card (set (column df c)) = 2)"
      by blast
    have "mw_vars mwu df c (v # vs) res = Inr res'"
      using step run by simp
    moreover have "\<forall>c' v'. entry_of res' c' v' =
        (if c' = c \<and> v' \<in> set (v # vs) \<and> card (set (column df c)) = 2
         then Some (mw_entry mwu df c v') else entry_of res c' v')"
      using True ent by (auto simp: e entry_of_store)
    moreover have "\<forall>c'. dict_get res' c' = None \<longleftrightarrow>
        dict_get res c' = None \<and> \<not> (c' = c \<and> v # vs \<noteq> [] \<and> card (set (column df c)) = 2)"
      using True by (auto simp: k dict_get_store)
    ultimately show ?thesis by blast
  qed
qed

lemma mw_cats_run:
  assumes cs: "set cats \<subseteq> set (df_columns df)"
    and vs: "set nums \<subseteq> set (df_columns df)"
    and ok: "\<forall>c\<in>set cats. card (set (column df c)) = 2 \<longrightarrow>
      (\<forall>v\<in>set nums. \<exists>r. mwu (fst (two_groups df c v)) (snd (two_groups df c v)) TwoSided = Inr r)"
  shows "\<exists>res'. mw_cats mwu df cats nums res = Inr res' \<and>
     (\<forall>c' v'. entry_of res' c' v' =
        (if c' \<in> set cats \<and> v' \<in> set nums \<and> card (set (column df c')) = 2
         then Some (mw_entry mwu df c' v') else entry_of res c' v')) \<and>
     (\<forall>c'. dict_get res' c' = None \<longleftrightarrow>
        dict_get res c' = None \<and> \<not> (c' \<in> set cats \<and> nums \<noteq> [] \<and> card (set (column df c')) = 2))"
  using cs ok
proof (induction cats arbitrary: res)
  case Nil
  then show ?case by simp
next
  case (Cons c cs)
  have c: "c \<in> set (df_columns df)" and cs': "set cs \<subseteq> set (df_columns df)"
    using Cons.prems(1) by auto
  have okc: "card (set (column df c)) = 2 \<longrightarrow>
      (\<forall>v\<in>set nums. \<exists>r. mwu (fst (two_groups df c v)) (snd (two_groups df c v)) TwoSided = Inr r)"
    and oks: "\<forall>c\<in>set cs. card (set (column df c)) = 2 \<longrightarrow>
      (\<forall>v\<in>set nums. \<exists>r. mwu (fst (two_groups df c v)) (snd (two_groups df c v)) TwoSided = Inr r)"
    using Cons.prems(2) by auto
  from mw_vars_run [where c=c and df=df and nums=nums and mwu=mwu and res=res, OF c vs okc]
  obtain res1 where
    run1: "mw_vars mwu df c nums res = Inr res1"
    and e1: "\<And>c' v'. entry_of res1 c' v' =
        (if c' = c \<and> v' \<in> set nums \<and> card (set (column df c)) = 2
         then Some (mw_entry mwu df c v') else entry_of res c' v')"
    and k1: "\<And>c'. dict_get res1 c' = None \<longleftrightarrow>
        dict_get res c' = None \<and> \<not> (c' = c \<and> nums \<noteq> [] \<and> card (set (column df c)) = 2)"
    by blast
  from Cons.IH [OF cs' oks, of res1] obtain res' where
    run: "mw_cats mwu df cs nums res1 = Inr res'"
    and e: "\<And>c' v'. entry_of res' c' v' =
        (if c' \<in> set cs \<and> v' \<in> set nums \<and> card (set (column df c')) = 2
         then Some (mw_entry mwu df c' v') else entry_of res1 c' v')"
    and k: "\<And>c'. dict_get res' c' = None \<longleftrightarrow>
        dict_get res1 c' = None \<and> \<not> (c' \<in> set cs \<and> nums \<noteq> [] \<and> card (set (column df c')) = 2)"
    by blast
  have "mw_cats mwu df (c # cs) nums res = Inr res'"
    using run1 run by simp
  moreover have "\<forall>c' v'. entry_of res' c' v' =
        (if c' \<in> set (c # cs) \<and> v' \<in> set nums \<and> card (set (column df c')) = 2
         then Some (mw_entry mwu df c' v') else entry_of res c' v')"
    by (auto simp: e e1)
  moreover have "\<forall>c'. dict_get res' c' = None \<longleftrightarrow>
        dict_get res c' = None \<and> \<not> (c' \<in> set (c # cs) \<and> nums \<noteq> [] \<and> card (set (column df c')) = 2)"
    by (auto simp: k k1)
  ultimately show ?case by blast
qed

section \<open>The loops of kruskal_wallis_test\<close>

lemma unique_append: "unique (xs @ ys) = unique xs @ filter (\<lambda>y. y \<notin> set xs) (unique ys)"
  by (induction xs) (auto simp: conj_commute)

lemma unique_snoc: "distinct xs \<Longrightarrow> unique (xs @ [k]) = (if k \<in> set xs then xs else xs @ [k])"
  by (simp add: unique_append unique_distinct)

lemma unique_unique_append: "unique (unique xs @ ys) = unique (xs @ ys)"
  by (simp add: unique_append [of "unique xs"] unique_append [of xs] set_unique
        unique_distinct [OF distinct_unique])

lemma inner_keys_store:
  "inner_keys (store_result results c v e) c' =
     (if c' = c then (if v \<in> set (inner_keys results c) then inner_keys results c
                      else inner_keys results c @ [v])
      else inner_keys results c')"
  by (cases "dict_get results c")
     (auto simp: store_result_def inner_keys_def dict_get_set dict_get_Cons dict_get_Nil Let_def
        keys_dict_set)

lemma kw_vars_total:
  assumes "c \<in> set (df_columns df)" "set nums \<subseteq> set (df_columns df)"
    and "\<forall>v\<in>set nums. \<exists>r. kruskal (all_groups df c v) = Inr r"
  shows "\<exists>res'. kw_vars kruskal df c (unique (column df c)) nums res = Inr res'"
  using assms(2,3)
proof (induction nums arbitrary: res)
  case Nil
  then show ?case by simp
next
  case (Cons v vs)
  then obtain h p where "kruskal (all_groups df c v) = Inr (h, p)"
    by fastforce
  moreover have "v \<in> set (df_columns df)"
    using Cons.prems by simp
  ultimately show ?case
    using Cons assms(1) by (simp add: collect_groups_Inr all_groups_def)
qed

lemma kw_vars_entry:
  assumes "c \<in> set (df_columns df)" "set nums \<subseteq> set (df_columns df)"
    and "kw_vars kruskal df c (unique (column df c)) nums res = Inr res'"
  shows "entry_of res' c' v' =
     (if c' = c \<and> v' \<in> set nums then Some (kw_entry kruskal df c v') else entry_of res c' v')"
  using assms(2,3)
proof (induction nums arbitrary: res)
  case Nil
  then show ?case by simp
next
  case (Cons v vs)
  have v: "v \<in> set (df_columns df)" and vs: "set vs \<subseteq> set (df_columns df)"
    using Cons.prems by simp_all
  from Cons.prems(2) obtain h p where
    hp: "kruskal (all_groups df c v) = Inr (h, p)"
    and run: "kw_vars kruskal df c (unique (column df c)) vs
                (store_result res c v [(''H-statistic'', h), (''p-value'', p)]) = Inr res'"
    using assms(1) v
    by (auto simp: collect_groups_Inr all_groups_def split: sum.splits)
  have "kw_entry kruskal df c v = [(''H-statistic'', h), (''p-value'', p)]"
    using hp by (simp add: kw_entry_def)
  with Cons.IH [OF vs run] show ?case
    by (auto simp: entry_of_store)
qed

lemma kw_vars_present:
  assumes "kw_vars kruskal df c categories nums res = Inr res'"
  shows "dict_get res' c' = None \<longleftrightarrow> dict_get res c' = None \<and> \<not> (c' = c \<and> nums \<noteq> [])"
  using assms
proof (induction nums arbitrary: res)
  case Nil
  then show ?case by simp
next
  case (Cons v vs)
  from Cons.prems obtain e where
    "kw_vars kruskal df c categories vs (store_result res c v e) = Inr res'"
    by (auto split: sum.splits)
  from Cons.IH [OF this] show ?case
    by (auto simp: dict_get_store)
qed

lemma kw_vars_keys:
  assumes "kw_vars kruskal df c categories nums res = Inr res'"
    and "distinct (inner_keys res c)"
  shows "inner_keys res' c' =
     (if c' = c then unique (inner_keys res c @ nums) else inner_keys res c')"
  using assms
proof (induction nums arbitrary: res)
  case Nil
  then show ?case by (simp add: unique_distinct)
next
  case (Cons v vs)
  from Cons.prems obtain e where
    run: "kw_vars kruskal df c categories vs (store_result res c v e) = Inr res'"
    by (auto split: sum.splits)
  let ?res1 = "store_result res c v e"
  have k1: "inner_keys ?res1 c = unique (inner_keys res c @ [v])"
    using Cons.prems(2) by (simp add: inner_keys_store unique_snoc)
  then have d1: "distinct (inner_keys ?res1 c)"
    by (simp add: distinct_unique)
  have "unique (inner_keys ?res1 c @ vs) = unique (inner_keys res c @ v # vs)"
    using unique_unique_append [of "inner_keys res c @ [v]" vs] k1 by simp
  with Cons.IH [OF run d1] show ?case
    by (auto simp: inner_keys_store)
qed

lemma unique_append_twice: "unique (xs @ ys @ ys) = unique (xs @ ys)"
proof -
  have "filter (\<lambda>y. y \<notin> set (xs @ ys)) (unique ys) = []"
    by (auto simp: filter_empty_conv set_unique)
  moreover have "unique ((xs @ ys) @ ys) =
      unique (xs @ ys) @ filter (\<lambda>y. y \<notin> set (xs @ ys)) (unique ys)"
    by (rule unique_append)
  ultimately show ?thesis
    by simp
qed

lemma kw_cats_total:
  assumes "set cats \<subseteq> set (df_columns df)" "set nums \<subseteq> set (df_columns df)"
    and "\<forall>c\<in>set cats. 3 \<le> card (set (column df c)) \<longrightarrow>
           (\<forall>v\<in>set nums. \<exists>r. kruskal (all_groups df c v) = Inr r)"
  shows "\<exists>res'. kw_cats kruskal df cats nums res = Inr res'"
  using assms(1,3)
proof (induction cats arbitrary: res)
  case Nil
  then show ?case by simp
next
  case (Cons c cs)
  have c: "c \<in> set (df_columns df)"
    using Cons.prems by simp
  show ?case
  proof (cases "3 \<le> card (set (column df c))")
    case True
    with Cons.prems have "\<forall>v\<in>set nums. \<exists>r. kruskal (all_groups df c v) = Inr r"
      by simp
    from kw_vars_total [where res=res, OF c assms(2) this] obtain res1 where
      "kw_vars kruskal df c (unique (column df c)) nums res = Inr res1"
      by blast
    with Cons True c show ?thesis
      by (simp add: getitem_col_def length_unique)
  next
    case False
    with Cons c show ?thesis
      by (simp add: getitem_col_def length_unique)
  qed
qed

lemma kw_cats_step:
  assumes "c \<in> set (df_columns df)"
    and "kw_cats kruskal df (c # cs) nums res = Inr res'"
  shows "\<exists>res1. (if 3 \<le> card (set (column df c))
                 then kw_vars kruskal df c (unique (column df c)) nums res = Inr res1
                 else res1 = res) \<and>
           kw_cats kruskal df cs nums res1 = Inr res'"
  using assms
  by (auto simp: getitem_col_def length_unique split: sum.splits if_splits)

lemma kw_cats_entry:
  assumes "set cats \<subseteq> set (df_columns df)" "set nums \<subseteq> set (df_columns df)"
    and "kw_cats kruskal df cats nums res = Inr res'"
  shows "entry_of res' c' v' =
     (if c' \<in> set cats \<and> 3 \<le> card (set (column df c')) \<and> v' \<in> set nums
      then Some (kw_entry kruskal df c' v') else entry_of res c' v')"
  using assms(1,3)
proof (induction cats arbitrary: res)
  case Nil
  then show ?case by simp
next
  case (Cons c cs)
  have c: "c \<in> set (df_columns df)" and cs: "set cs \<subseteq> set (df_columns df)"
    using Cons.prems by simp_all
  from kw_cats_step [OF c Cons.prems(2)] obtain res1 where
    one: "if 3 \<le> card (set (column df c))
          then kw_vars kruskal df c (unique (column df c)) nums res = Inr res1
          else res1 = res"
    and rest: "kw_cats kruskal df cs nums res1 = Inr res'"
    by blast
  have "entry_of res1 c' v' =
     (if c' = c \<and> 3 \<le> card (set (column df c)) \<and> v' \<in> set nums
      then Some (kw_entry kruskal df c v') else entry_of res c' v')"
    using one kw_vars_entry [OF c assms(2), of kruskal res res1 c' v']
    by (auto split: if_splits)
  with Cons.IH [OF cs rest] show ?case
    by auto
qed

lemma kw_cats_present:
  assumes "set cats \<subseteq> set (df_columns df)"
    and "kw_cats kruskal df cats nums res = Inr res'"
  shows "dict_get res' c' = None \<longleftrightarrow>
     dict_get res c' = None \<and> \<not> (c' \<in> set cats \<and> 3 \<le> card (set (column df c')) \<and> nums \<noteq> [])"
  using assms
proof (induction cats arbitrary: res)
  case Nil
  then show ?case by simp
next
  case (Cons c cs)
  have c: "c \<in> set (df_columns df)" and cs: "set cs \<subseteq> set (df_columns df)"
    using Cons.prems by simp_all
  from kw_cats_step [OF c Cons.prems(2)] obtain res1 where
    one: "if 3 \<le> card (set (column df c))
          then kw_vars kruskal df c (unique (column df c)) nums res = Inr res1
          else res1 = res"
    and rest: "kw_cats kruskal df cs nums res1 = Inr res'"
    by blast
  have "dict_get res1 c' = None \<longleftrightarrow>
     dict_get res c' = None \<and> \<not> (c' = c \<and> 3 \<le> card (set (column df c)) \<and> nums \<noteq> [])"
    using one kw_vars_present [of kruskal df c "unique (column df c)" nums res res1 c']
    by (auto split: if_splits)
  with Cons.IH [OF cs rest] show ?case
    by auto
qed

lemma kw_cats_keys:
  assumes "set cats \<subseteq> set (df_columns df)"
    and "kw_cats kruskal df cats nums res = Inr res'"
    and "\<forall>c. distinct (inner_keys res c)"
  shows "inner_keys res' c' =
     (if c' \<in> set cats \<and> 3 \<le> card (set (column df c'))
      then unique (inner_keys res c' @ nums) else inner_keys res c')"
  using assms
proof (induction cats arbitrary: res)
  case Nil
  then show ?case by simp
next
  case (Cons c cs)
  have c: "c \<in> set (df_columns df)" and cs: "set cs \<subseteq> set (df_columns df)"
    using Cons.prems by simp_all
  from kw_cats_step [OF c Cons.prems(2)] obtain res1 where
    one: "if 3 \<le> card (set (column df c))
          then kw_vars kruskal df c (unique (column df c)) nums res = Inr res1
          else res1 = res"
    and rest: "kw_cats kruskal df cs nums res1 = Inr res'"
    by blast
  have k1: "inner_keys res1 c'' =
     (if c'' = c \<and> 3 \<le> card (set (column df c))
      then unique (inner_keys res c @ nums) else inner_keys res c'')" for c''
    using one Cons.prems(3)
      kw_vars_keys [of kruskal df c "unique (column df c)" nums res res1 c'']
    by (auto split: if_splits)
  then have d1: "\<forall>c''. distinct (inner_keys res1 c'')"
    using Cons.prems(3) by (simp add: distinct_unique)
  from Cons.IH [OF cs rest d1] show ?case
    by (auto simp: k1 unique_unique_append unique_append_twice)
qed

section \<open>Evaluation on the sample data\<close>

lemmas run_defs = mw_pair_def getitem_col_def column_def survey_def mk_row_def select_group_def
  getitem_mask_def eq_mask_def toy_mwu_def toy_ktest_def numeric_cell_def store_result_def dict_get_def
  results_table_def frame_T_def style_map_def group_values_def two_groups_def all_groups_def

section \<open>The Pairwise Rank Test\<close>

text \<open>
  Claim C4. When the supplied fields are columns of the dataset and the library's
  computation returns for the pairs it is called on, the loops of \<open>mann_whitney_test\<close>
  finish, and \<open>results\<close> holds an entry for a field pair exactly when the pair was
  supplied and the categorical field has exactly 2 distinct values. The entry is the
  U statistic and the p-value that the library returns for the two groups with the
  alternative \<open>two-sided\<close>. For any other pair no entry is written.
\<close>

theorem mann_whitney_entry_iff_two_values:
  assumes "set categorical_vars \<subseteq> set (df_columns df)"
    and "set numerical_variable \<subseteq> set (df_columns df)"
    and "\<forall>c\<in>set categorical_vars. card (set (column df c)) = 2 \<longrightarrow>
      (\<forall>v\<in>set numerical_variable.
         \<exists>r. mannwhitneyu (fst (two_groups df c v)) (snd (two_groups df c v)) TwoSided = Inr r)"
  shows "\<exists>results. mw_cats mannwhitneyu df categorical_vars numerical_variable [] = Inr results \<and>
     (\<forall>c v. if c \<in> set categorical_vars \<and> v \<in> set numerical_variable \<and>
                card (set (column df c)) = 2
             then \<exists>u p. mannwhitneyu (fst (two_groups df c v)) (snd (two_groups df c v)) TwoSided
                          = Inr (u, p) \<and>
                        entry_of results c v = Some [(''U-statistic'', u), (''p-value'', p)]
             else entry_of results c v = None)"
proof -
  from mw_cats_run [where res="[]" and mwu=mannwhitneyu, OF assms] obtain results where
    run: "mw_cats mannwhitneyu df categorical_vars numerical_variable [] = Inr results"
    and e: "\<And>c v. entry_of results c v =
        (if c \<in> set categorical_vars \<and> v \<in> set numerical_variable \<and> card (set (column df c)) = 2
         then Some (mw_entry mannwhitneyu df c v) else entry_of [] c v)"
    by blast
  have "\<exists>u p. mannwhitneyu (fst (two_groups df c v)) (snd (two_groups df c v)) TwoSided = Inr (u, p) \<and>
          entry_of results c v = Some [(''U-statistic'', u), (''p-value'', p)]"
    if "c \<in> set categorical_vars" "v \<in> set numerical_variable" "card (set (column df c)) = 2"
    for c v
  proof -
    from assms(3) that obtain u p where
      "mannwhitneyu (fst (two_groups df c v)) (snd (two_groups df c v)) TwoSided = Inr (u, p)"
      by fastforce
    then show ?thesis
      using that by (simp add: e mw_entry_def)
  qed
  moreover have "entry_of results c v = None"
    if "\<not> (c \<in> set categorical_vars \<and> v \<in> set numerical_variable \<and> card (set (column df c)) = 2)"
    for c v
  proof -
    have "entry_of [] c v = None"
      by (simp add: entry_of_def dict_get_Nil)
    with that show ?thesis
      by (simp add: e)
  qed
  ultimately show ?thesis
    using run by (intro exI [of _ results]) simp
qed

theorem mann_whitney_entry_iff_two_values_witness:
  "set [''region'', ''site''] \<subseteq> set (df_columns survey) \<and>
   set [''ndvi''] \<subseteq> set (df_columns survey) \<and>
   card (set (column survey ''region'')) = 2 \<and>
   card (set (column survey ''site'')) \<noteq> 2 \<and>
   (\<exists>results. mw_cats toy_mwu survey [''region'', ''site''] [''ndvi''] [] = Inr results \<and>
     (\<forall>c v. if c \<in> set [''region'', ''site''] \<and> v \<in> set [''ndvi''] \<and>
                card (set (column survey c)) = 2
             then \<exists>u p. toy_mwu (fst (two_groups survey c v)) (snd (two_groups survey c v)) TwoSided
                          = Inr (u, p) \<and>
                        entry_of results c v = Some [(''U-statistic'', u), (''p-value'', p)]
             else entry_of results c v = None))"
proof -
  have h1: "set [''region'', ''site''] \<subseteq> set (df_columns survey)"
    by (simp add: survey_def)
  have h2: "set [''ndvi''] \<subseteq> set (df_columns survey)"
    by (simp add: survey_def)
  have c1: "card (set (column survey ''region'')) = 2"
    by (simp only: length_unique [symmetric]) (simp add: column_def survey_def mk_row_def)
  have c2: "card (set (column survey ''site'')) \<noteq> 2"
    by (simp only: length_unique [symmetric]) (simp add: column_def survey_def mk_row_def)
  have "\<exists>r. toy_mwu (fst (two_groups survey ''region'' ''ndvi''))
              (snd (two_groups survey ''region'' ''ndvi'')) TwoSided = Inr r"
    by (simp add: run_defs)
  with c2 have h3: "\<forall>c\<in>set [''region'', ''site'']. card (set (column survey c)) = 2 \<longrightarrow>
      (\<forall>v\<in>set [''ndvi''].
         \<exists>r. toy_mwu (fst (two_groups survey c v)) (snd (two_groups survey c v)) TwoSided = Inr r)"
    by simp
  from mann_whitney_entry_iff_two_values [where mannwhitneyu=toy_mwu, OF h1 h2 h3] h1 h2 c1 c2 show ?thesis
    by blast
qed

section \<open>The loops of the Omnibus Rank Test, from empty results\<close>

text \<open>
  What \<open>results\<close> holds when the loops of \<open>kruskal_wallis_test\<close> have finished.
\<close>

lemma kw_loop_entries:
  assumes "set categorical_vars \<subseteq> set (df_columns df)"
    and "set numerical_variable \<subseteq> set (df_columns df)"
    and "\<forall>c\<in>set categorical_vars. 3 \<le> card (set (column df c)) \<longrightarrow>
      (\<forall>v\<in>set numerical_variable. \<exists>r. kruskal (all_groups df c v) = Inr r)"
  shows "\<exists>results. kw_cats kruskal df categorical_vars numerical_variable [] = Inr results \<and>
     (\<forall>c. if c \<in> set categorical_vars \<and> 3 \<le> card (set (column df c))
          then inner_keys results c = unique numerical_variable \<and>
               (\<forall>v\<in>set numerical_variable.
                  \<exists>h p. kruskal (all_groups df c v) = Inr (h, p) \<and>
                        entry_of results c v = Some [(''H-statistic'', h), (''p-value'', p)])
          else dict_get results c = None)"
proof -
  from kw_cats_total [where res="[]" and kruskal=kruskal, OF assms] obtain results where
    run: "kw_cats kruskal df categorical_vars numerical_variable [] = Inr results"
    by blast
  have keys: "inner_keys results c = unique numerical_variable"
    if "c \<in> set categorical_vars" "3 \<le> card (set (column df c))" for c
    using that kw_cats_keys [OF assms(1) run, of c]
    by (simp add: inner_keys_def dict_get_Nil)
  have ent: "\<exists>h p. kruskal (all_groups df c v) = Inr (h, p) \<and>
                  entry_of results c v = Some [(''H-statistic'', h), (''p-value'', p)]"
    if "c \<in> set categorical_vars" "3 \<le> card (set (column df c))" "v \<in> set numerical_variable"
    for c v
  proof -
    from assms(3) that obtain h p where "kruskal (all_groups df c v) = Inr (h, p)"
      by fastforce
    then show ?thesis
      using that kw_cats_entry [OF assms(1,2) run, of c v] by (simp add: kw_entry_def)
  qed
  have none: "dict_get results c = None"
    if "\<not> (c \<in> set categorical_vars \<and> 3 \<le> card (set (column df c)))" for c
    using that kw_cats_present [OF assms(1) run, of c] by (auto simp: dict_get_Nil)
  from run keys ent none show ?thesis
    by (intro exI [of _ results]) simp
qed

section \<open>Table construction without results for a field\<close>

text \<open>
  Claim C1. The claim asks for an empty table when no field meets the cardinality
  precondition. \<open>kruskal_wallis_test\<close> guards the table construction with
  \<open>if results\<close>; \<open>mann_whitney_test\<close> does not: with the single field \<open>site\<close>, which has
  one distinct value, its table construction indexes \<open>results[''site'']\<close> and raises.
\<close>

theorem mann_whitney_without_binary_field_raises:
  "mann_whitney_test toy_mwu survey [''site''] [''ndvi''] = Inl (KeyError ''site'') \<and>
   kruskal_wallis_test toy_ktest survey [''site''] [''ndvi''] = Inr (Frame [])"
  by (simp add: mann_whitney_test_def kruskal_wallis_test_def run_defs)

text \<open>
  Claim C2. The claim asks for a table that omits the pairs whose precondition is unmet.
  With one field that meets the precondition and one that does not, the table
  construction of both engines raises at the field without results instead.
\<close>

theorem mixed_cardinalities_raise:
  "mann_whitney_test toy_mwu survey [''region'', ''season''] [''ndvi''] = Inl (KeyError ''season'') \<and>
   kruskal_wallis_test toy_ktest survey [''season'', ''region''] [''ndvi''] = Inl (KeyError ''region'')"
  by (simp add: mann_whitney_test_def kruskal_wallis_test_def run_defs)

lemma comp_vars_missing:
  "dict_get results c = None \<Longrightarrow> nums \<noteq> [] \<Longrightarrow> comp_vars results c nums acc = Inl (KeyError c)"
  by (cases nums) simp_all

lemma comp_vars_present:
  "dict_get results c = Some inner \<Longrightarrow> \<exists>acc'. comp_vars results c nums acc = Inr acc'"
  by (induction nums arbitrary: acc) simp_all

lemma comp_cats_missing:
  assumes "nums \<noteq> []" and "\<exists>c\<in>set cats. dict_get results c = None"
  shows "\<exists>k\<in>set cats. dict_get results k = None \<and>
           (comp_cats results cats nums acc :: 'e error + _) = Inl (KeyError k)"
  using assms(2)
proof (induction cats arbitrary: acc)
  case Nil
  then show ?case by simp
next
  case (Cons c cs)
  show ?case
  proof (cases "dict_get results c")
    case None
    then show ?thesis
      using assms(1) by (simp add: comp_vars_missing)
  next
    case (Some inner)
    with Cons.prems have rest: "\<exists>c\<in>set cs. dict_get results c = None"
      by auto
    from comp_vars_present [OF Some, of nums acc] obtain acc' where
      cv: "(comp_vars results c nums acc :: 'e error + _) = Inr acc'"
      by blast
    then have step: "(comp_cats results (c # cs) nums acc :: 'e error + _) =
        comp_cats results cs nums acc'"
      by simp
    from Cons.IH [OF rest, of acc'] obtain k where
      "k \<in> set cs" "dict_get results k = None"
      "(comp_cats results cs nums acc' :: 'e error + _) = Inl (KeyError k)"
      by blast
    then show ?thesis
      unfolding step by (intro bexI [of _ k]) simp_all
  qed
qed

section \<open>The KeyError of the table construction\<close>

text \<open>
  Claim C3 says that a supplied field without results always ends the run with a
  KeyError. A failure of the library's computation comes first: here \<open>season\<close> has 3
  distinct values, but the observations of \<open>site\<close> are labels, the computation for
  \<open>region\<close> raises, and that failure is what the caller receives.
\<close>

theorem statistic_failure_precedes_key_error:
  "mann_whitney_test toy_mwu survey [''region'', ''season''] [''site'']
     = Inl (Raised ''non-numeric data'')"
  by (simp add: mann_whitney_test_def run_defs)

text \<open>
  Claim C3, amended. Let the numerical fields be non-empty, let all supplied fields be
  columns of the dataset, and let the library's computation return for every pair it
  is called on. Then \<open>mann_whitney_test\<close> raises KeyError, at a supplied field whose
  number of distinct values is not 2, whenever there is such a field; and
  \<open>kruskal_wallis_test\<close> raises KeyError, at a supplied field with fewer than 3
  distinct values, whenever one supplied field has 3 or more distinct values and another
  has fewer than 3.
\<close>

theorem table_construction_key_error:
  assumes "numerical_variable \<noteq> []"
    and "set categorical_vars \<subseteq> set (df_columns df)"
    and "set numerical_variable \<subseteq> set (df_columns df)"
  shows
    "((\<forall>c\<in>set categorical_vars. card (set (column df c)) = 2 \<longrightarrow>
         (\<forall>v\<in>set numerical_variable.
            \<exists>r. mannwhitneyu (fst (two_groups df c v)) (snd (two_groups df c v)) TwoSided = Inr r)) \<and>
      (\<exists>c\<in>set categorical_vars. card (set (column df c)) \<noteq> 2)
      \<longrightarrow> (\<exists>k\<in>set categorical_vars. card (set (column df k)) \<noteq> 2 \<and>
             mann_whitney_test mannwhitneyu df categorical_vars numerical_variable
               = Inl (KeyError k))) \<and>
     ((\<forall>c\<in>set categorical_vars. 3 \<le> card (set (column df c)) \<longrightarrow>
         (\<forall>v\<in>set numerical_variable. \<exists>r. kruskal (all_groups df c v) = Inr r)) \<and>
      (\<exists>c\<in>set categorical_vars. 3 \<le> card (set (column df c))) \<and>
      (\<exists>c\<in>set categorical_vars. card (set (column df c)) < 3)
      \<longrightarrow> (\<exists>k\<in>set categorical_vars. card (set (column df k)) < 3 \<and>
             kruskal_wallis_test kruskal df categorical_vars numerical_variable
               = Inl (KeyError k)))"
proof (intro conjI impI)
  assume a: "(\<forall>c\<in>set categorical_vars. card (set (column df c)) = 2 \<longrightarrow>
         (\<forall>v\<in>set numerical_variable.
            \<exists>r. mannwhitneyu (fst (two_groups df c v)) (snd (two_groups df c v)) TwoSided = Inr r)) \<and>
      (\<exists>c\<in>set categorical_vars. card (set (column df c)) \<noteq> 2)"
  then have ok: "\<forall>c\<in>set categorical_vars. card (set (column df c)) = 2 \<longrightarrow>
         (\<forall>v\<in>set numerical_variable.
            \<exists>r. mannwhitneyu (fst (two_groups df c v)) (snd (two_groups df c v)) TwoSided = Inr r)"
    and bad: "\<exists>c\<in>set categorical_vars. card (set (column df c)) \<noteq> 2"
    by simp_all
  from mw_cats_run [where res="[]" and mwu=mannwhitneyu, OF assms(2,3) ok] obtain results where
    run: "mw_cats mannwhitneyu df categorical_vars numerical_variable [] = Inr results"
    and k: "\<And>c'. dict_get results c' = None \<longleftrightarrow>
        dict_get ([] :: results) c' = None \<and>
        \<not> (c' \<in> set categorical_vars \<and> numerical_variable \<noteq> [] \<and> card (set (column df c')) = 2)"
    by blast
  have present: "dict_get results c = None \<longleftrightarrow> card (set (column df c)) \<noteq> 2"
    if "c \<in> set categorical_vars" for c
    using that assms(1) by (simp add: k dict_get_Nil)
  with bad have "\<exists>c\<in>set categorical_vars. dict_get results c = None"
    by auto
  from comp_cats_missing [OF assms(1) this, of "[]"] obtain c where
    c: "c \<in> set categorical_vars" "dict_get results c = None"
    and fail: "(comp_cats results categorical_vars numerical_variable []
                 :: 'a error + _) = Inl (KeyError c)"
    by blast
  have "mann_whitney_test mannwhitneyu df categorical_vars numerical_variable = Inl (KeyError c)"
    using run fail by (simp add: mann_whitney_test_def results_table_def)
  with c present show "\<exists>k\<in>set categorical_vars. card (set (column df k)) \<noteq> 2 \<and>
      mann_whitney_test mannwhitneyu df categorical_vars numerical_variable = Inl (KeyError k)"
    by auto
next
  assume a: "(\<forall>c\<in>set categorical_vars. 3 \<le> card (set (column df c)) \<longrightarrow>
         (\<forall>v\<in>set numerical_variable. \<exists>r. kruskal (all_groups df c v) = Inr r)) \<and>
      (\<exists>c\<in>set categorical_vars. 3 \<le> card (set (column df c))) \<and>
      (\<exists>c\<in>set categorical_vars. card (set (column df c)) < 3)"
  then have ok: "\<forall>c\<in>set categorical_vars. 3 \<le> card (set (column df c)) \<longrightarrow>
         (\<forall>v\<in>set numerical_variable. \<exists>r. kruskal (all_groups df c v) = Inr r)"
    and big: "\<exists>c\<in>set categorical_vars. 3 \<le> card (set (column df c))"
    and small: "\<exists>c\<in>set categorical_vars. card (set (column df c)) < 3"
    by simp_all
  from kw_cats_total [where res="[]" and kruskal=kruskal, OF assms(2,3) ok] obtain results where
    run: "kw_cats kruskal df categorical_vars numerical_variable [] = Inr results"
    by blast
  have present: "dict_get results c = None \<longleftrightarrow> card (set (column df c)) < 3"
    if "c \<in> set categorical_vars" for c
    using that assms(1) kw_cats_present [OF assms(2) run, of c]
    by (auto simp: dict_get_Nil)
  from big obtain c3 where "c3 \<in> set categorical_vars" "3 \<le> card (set (column df c3))"
    by blast
  then have "dict_get results c3 \<noteq> None"
    using present [of c3] by simp
  then have "results \<noteq> []"
    by (auto simp: dict_get_Nil)
  from small present have "\<exists>c\<in>set categorical_vars. dict_get results c = None"
    by auto
  from comp_cats_missing [OF assms(1) this, of "[]"] obtain c where
    c: "c \<in> set categorical_vars" "dict_get results c = None"
    and fail: "(comp_cats results categorical_vars numerical_variable []
                 :: 'b error + _) = Inl (KeyError c)"
    by blast
  have "kruskal_wallis_test kruskal df categorical_vars numerical_variable = Inl (KeyError c)"
    using run fail \<open>results \<noteq> []\<close> by (simp add: kruskal_wallis_test_def results_table_def)
  with c present show "\<exists>k\<in>set categorical_vars. card (set (column df k)) < 3 \<and>
      kruskal_wallis_test kruskal df categorical_vars numerical_variable = Inl (KeyError k)"
    by auto
qed


theorem table_construction_key_error_witness:
  "[''ndvi''] \<noteq> [] \<and>
   set [''region'', ''season''] \<subseteq> set (df_columns survey) \<and>
   set [''ndvi''] \<subseteq> set (df_columns survey) \<and>
   (\<exists>c\<in>set [''region'', ''season'']. card (set (column survey c)) \<noteq> 2) \<and>
   (\<exists>c\<in>set [''region'', ''season'']. 3 \<le> card (set (column survey c))) \<and>
   (\<exists>c\<in>set [''region'', ''season'']. card (set (column survey c)) < 3) \<and>
   (\<exists>k\<in>set [''region'', ''season'']. card (set (column survey k)) \<noteq> 2 \<and>
      mann_whitney_test toy_mwu survey [''region'', ''season''] [''ndvi''] = Inl (KeyError k)) \<and>
   (\<exists>k\<in>set [''region'', ''season'']. card (set (column survey k)) < 3 \<and>
      kruskal_wallis_test toy_ktest survey [''region'', ''season''] [''ndvi''] = Inl (KeyError k))"
proof -
  have h1: "[''ndvi''] \<noteq> []"
    by simp
  have h2: "set [''region'', ''season''] \<subseteq> set (df_columns survey)"
    by (simp add: survey_def)
  have h3: "set [''ndvi''] \<subseteq> set (df_columns survey)"
    by (simp add: survey_def)
  have region: "card (set (column survey ''region'')) = 2"
    by (simp only: length_unique [symmetric]) (simp add: column_def survey_def mk_row_def)
  have season: "card (set (column survey ''season'')) = 3"
    by (simp only: length_unique [symmetric]) (simp add: column_def survey_def mk_row_def)
  have mw_ok: "\<exists>r. toy_mwu (fst (two_groups survey ''region'' ''ndvi''))
              (snd (two_groups survey ''region'' ''ndvi'')) TwoSided = Inr r"
    by (simp add: run_defs)
  have kw_ok: "\<exists>r. toy_ktest (all_groups survey ''season'' ''ndvi'') = Inr r"
    by (simp add: run_defs)
  have p1: "(\<forall>c\<in>set [''region'', ''season'']. card (set (column survey c)) = 2 \<longrightarrow>
         (\<forall>v\<in>set [''ndvi''].
            \<exists>r. toy_mwu (fst (two_groups survey c v)) (snd (two_groups survey c v)) TwoSided = Inr r)) \<and>
      (\<exists>c\<in>set [''region'', ''season'']. card (set (column survey c)) \<noteq> 2)"
    using region season mw_ok by simp
  have p2: "(\<forall>c\<in>set [''region'', ''season'']. 3 \<le> card (set (column survey c)) \<longrightarrow>
         (\<forall>v\<in>set [''ndvi'']. \<exists>r. toy_ktest (all_groups survey c v) = Inr r)) \<and>
      (\<exists>c\<in>set [''region'', ''season'']. 3 \<le> card (set (column survey c))) \<and>
      (\<exists>c\<in>set [''region'', ''season'']. card (set (column survey c)) < 3)"
    using region season kw_ok by simp
  note both = table_construction_key_error
    [where mannwhitneyu=toy_mwu and kruskal=toy_ktest, OF h1 h2 h3]
  from both p1 have r1: "\<exists>k\<in>set [''region'', ''season'']. card (set (column survey k)) \<noteq> 2 \<and>
      mann_whitney_test toy_mwu survey [''region'', ''season''] [''ndvi''] = Inl (KeyError k)"
    by blast
  from both p2 have r2: "\<exists>k\<in>set [''region'', ''season'']. card (set (column survey k)) < 3 \<and>
      kruskal_wallis_test toy_ktest survey [''region'', ''season''] [''ndvi''] = Inl (KeyError k)"
    by blast
  from h1 h2 h3 p1 p2 r1 r2 show ?thesis
    by blast
qed

section \<open>The Omnibus Mean Test\<close>

lemma anova_vars_total:
  assumes "cat \<in> set (df_columns df)" "set nums \<subseteq> set (df_columns df)"
    and "\<forall>v\<in>set nums. \<exists>r. f_oneway (all_groups df cat v) = Inr r"
  shows "\<exists>res'. anova_vars f_oneway df cat nums res = Inr res'"
  using assms(2,3)
proof (induction nums arbitrary: res)
  case Nil
  then show ?case by simp
next
  case (Cons v vs)
  then obtain f p where "f_oneway (all_groups df cat v) = Inr (f, p)"
    by fastforce
  moreover have "v \<in> set (df_columns df)"
    using Cons.prems by simp
  ultimately show ?case
    using Cons assms(1) by (simp add: getitem_col_def collect_groups_Inr all_groups_def)
qed

lemma anova_vars_step:
  assumes "cat \<in> set (df_columns df)" "v \<in> set (df_columns df)"
    and "anova_vars f_oneway df cat (v # vs) res = Inr res'"
  shows "\<exists>f p. f_oneway (all_groups df cat v) = Inr (f, p) \<and>
     anova_vars f_oneway df cat vs
       (dict_set res v [(''F-Statistics'', f), (''p-value'', p)]) = Inr res'"
  using assms
  by (auto simp: getitem_col_def collect_groups_Inr all_groups_def split: sum.splits)

lemma anova_vars_get:
  assumes "cat \<in> set (df_columns df)" "set nums \<subseteq> set (df_columns df)"
    and "anova_vars f_oneway df cat nums res = Inr res'"
  shows "dict_get res' v' =
     (if v' \<in> set nums then Some (anova_entry f_oneway df cat v') else dict_get res v')"
  using assms(2,3)
proof (induction nums arbitrary: res)
  case Nil
  then show ?case by simp
next
  case (Cons v vs)
  have v: "v \<in> set (df_columns df)" and vs: "set vs \<subseteq> set (df_columns df)"
    using Cons.prems by simp_all
  from anova_vars_step [OF assms(1) v Cons.prems(2)] obtain f p where
    fp: "f_oneway (all_groups df cat v) = Inr (f, p)"
    and run: "anova_vars f_oneway df cat vs
       (dict_set res v [(''F-Statistics'', f), (''p-value'', p)]) = Inr res'"
    by blast
  have "anova_entry f_oneway df cat v = [(''F-Statistics'', f), (''p-value'', p)]"
    using fp by (simp add: anova_entry_def)
  with Cons.IH [OF vs run] show ?case
    by (auto simp: dict_get_set)
qed

lemma anova_vars_keys:
  assumes "cat \<in> set (df_columns df)" "set nums \<subseteq> set (df_columns df)"
    and "anova_vars f_oneway df cat nums res = Inr res'"
    and "distinct (map fst res)"
  shows "map fst res' = unique (map fst res @ nums)"
  using assms(2,3,4)
proof (induction nums arbitrary: res)
  case Nil
  then show ?case by (simp add: unique_distinct)
next
  case (Cons v vs)
  have v: "v \<in> set (df_columns df)" and vs: "set vs \<subseteq> set (df_columns df)"
    using Cons.prems by simp_all
  from anova_vars_step [OF assms(1) v Cons.prems(2)] obtain f p where
    run: "anova_vars f_oneway df cat vs
       (dict_set res v [(''F-Statistics'', f), (''p-value'', p)]) = Inr res'"
    by blast
  let ?res1 = "dict_set res v [(''F-Statistics'', f), (''p-value'', p)]"
  have k1: "map fst ?res1 = unique (map fst res @ [v])"
    using Cons.prems(3) by (simp add: keys_dict_set unique_snoc)
  then have d1: "distinct (map fst ?res1)"
    by (simp add: distinct_unique)
  have "unique (map fst ?res1 @ vs) = unique (map fst res @ v # vs)"
    using unique_unique_append [of "map fst res @ [v]" vs] k1 by simp
  with Cons.IH [OF vs run d1] show ?case
    by simp
qed

lemma set_dict_set: "set (dict_set d k v) \<subseteq> insert (k, v) (set d)"
  by (induction d) (auto split: if_splits)

lemma anova_vars_shape:
  assumes "cat \<in> set (df_columns df)" "set nums \<subseteq> set (df_columns df)"
    and "anova_vars f_oneway df cat nums res = Inr res'"
    and "\<forall>(k, e)\<in>set res. map fst e = [''F-Statistics'', ''p-value'']"
  shows "\<forall>(k, e)\<in>set res'. map fst e = [''F-Statistics'', ''p-value'']"
  using assms(2,3,4)
proof (induction nums arbitrary: res)
  case Nil
  then show ?case by simp
next
  case (Cons v vs)
  have v: "v \<in> set (df_columns df)" and vs: "set vs \<subseteq> set (df_columns df)"
    using Cons.prems by simp_all
  from anova_vars_step [OF assms(1) v Cons.prems(2)] obtain f p where
    run: "anova_vars f_oneway df cat vs
       (dict_set res v [(''F-Statistics'', f), (''p-value'', p)]) = Inr res'"
    by blast
  have "\<forall>(k, e)\<in>set (dict_set res v [(''F-Statistics'', f), (''p-value'', p)]).
          map fst e = [''F-Statistics'', ''p-value'']"
    using Cons.prems(3) set_dict_set [of res v "[(''F-Statistics'', f), (''p-value'', p)]"]
    by auto
  from Cons.IH [OF vs run this] show ?case .
qed

text \<open>A table whose rows all give the same columns is its own frame.\<close>

lemma unique_concat_same:
  assumes "xss \<noteq> []" "\<forall>xs\<in>set xss. xs = ks" "distinct ks"
  shows "unique (concat xss) = ks"
  using assms
proof (induction xss)
  case Nil
  then show ?case by simp
next
  case (Cons xs xss)
  show ?case
  proof (cases "xss = []")
    case True
    with Cons.prems show ?thesis by (simp add: unique_distinct)
  next
    case False
    with Cons have "unique (concat xss) = ks" by simp
    moreover have "filter (\<lambda>y. y \<notin> set ks) ks = []"
      by (simp add: filter_empty_conv)
    ultimately show ?thesis
      using Cons.prems by (simp add: unique_append unique_distinct)
  qed
qed

lemma row_rebuild:
  "distinct (map fst e) \<Longrightarrow>
   map (\<lambda>c. (c, case dict_get e c of None \<Rightarrow> NaN | Some v \<Rightarrow> v)) (map fst e) = e"
proof (induction e)
  case Nil
  then show ?case by simp
next
  case (Cons kv e)
  obtain k v where kv: "kv = (k, v)" by (cases kv)
  from Cons.prems kv have "k \<notin> fst ` set e" and d: "distinct (map fst e)"
    by auto
  then have "map (\<lambda>c. (c, case dict_get ((k, v) # e) c of None \<Rightarrow> NaN | Some v \<Rightarrow> v)) (map fst e)
      = map (\<lambda>c. (c, case dict_get e c of None \<Rightarrow> NaN | Some v \<Rightarrow> v)) (map fst e)"
    by (intro map_cong) (auto simp: dict_get_Cons)
  with Cons.IH [OF d] kv show ?case
    by (simp add: dict_get_Cons)
qed

lemma frame_T_id:
  assumes "\<forall>(k, e)\<in>set d. map fst e = ks" "distinct ks"
  shows "frame_T d = d"
proof (cases "d = []")
  case True
  then show ?thesis by (simp add: frame_T_def)
next
  case False
  have "unique (concat (map (\<lambda>(k, e). map fst e) d)) = ks"
    using False assms by (intro unique_concat_same) auto
  then have "frame_T d = map (\<lambda>(k, e). (k, map (\<lambda>c. (c, case dict_get e c of None \<Rightarrow> NaN | Some v \<Rightarrow> v)) ks)) d"
    by (simp add: frame_T_def)
  also have "\<dots> = map (\<lambda>(k, e). (k, e)) d"
  proof (intro map_cong refl)
    fix x assume x: "x \<in> set d"
    obtain k e where ke: "x = (k, e)" by (cases x)
    with x assms have "map fst e = ks" "distinct (map fst e)"
      by auto
    with row_rebuild [of e] ke
    show "(case x of (k, e) \<Rightarrow> (k, map (\<lambda>c. (c, case dict_get e c of None \<Rightarrow> NaN | Some v \<Rightarrow> v)) ks))
        = (case x of (k, e) \<Rightarrow> (k, e))"
      by simp
  qed
  finally show ?thesis by simp
qed

lemma group_nonempty:
  assumes "c \<in> set (column df cat)" "cell_eq c c"
  shows "group_values df cat c v \<noteq> []"
proof -
  from assms(1) obtain r where "r \<in> set (df_rows df)" "r cat = c"
    by (auto simp: column_def)
  with assms(2) have "r \<in> set (filter (\<lambda>r. cell_eq (r cat) c) (df_rows df))"
    by simp
  then show ?thesis
    unfolding group_values_eq by (auto simp: filter_empty_conv)
qed

lemma all_groups_nonempty:
  assumes "\<forall>c\<in>set (column df cat). cell_eq c c"
  shows "[] \<notin> set (all_groups df cat v)"
proof
  assume "[] \<in> set (all_groups df cat v)"
  then obtain c where "c \<in> set (column df cat)" "group_values df cat c v = []"
    by (auto simp: all_groups_def set_unique)
  with assms group_nonempty [of c df cat v] show False
    by simp
qed

lemma length_all_groups: "length (all_groups df cat v) = card (set (column df cat))"
  by (simp add: all_groups_def length_unique)

text \<open>
  Claim C6. Let the categorical field and the numerical fields be columns of the
  dataset, let the categorical field have at least 2 distinct values and no missing
  value (so that every group is non-empty), and let the library's computation return
  whenever it is given at least 2 groups, none of them empty. Then \<open>anova\<close> returns a
  table whose rows are the supplied numerical fields, each once and in the supplied
  order, and the row of a field holds the F statistic and the p-value that the library
  returns for the groups of all categories. No test on the number of categories is made.
\<close>

theorem anova_one_row_per_numerical_field:
  assumes "categorical_variable \<in> set (df_columns df)"
    and "set numerical_variable \<subseteq> set (df_columns df)"
    and "2 \<le> card (set (column df categorical_variable))"
    and "\<forall>c\<in>set (column df categorical_variable). cell_eq c c"
    and "\<forall>v\<in>set numerical_variable.
           2 \<le> length (all_groups df categorical_variable v) \<and>
           [] \<notin> set (all_groups df categorical_variable v) \<longrightarrow>
           (\<exists>r. f_oneway (all_groups df categorical_variable v) = Inr r)"
  shows "\<exists>styled. anova f_oneway df numerical_variable categorical_variable = Inr styled \<and>
     map fst (data styled) = unique numerical_variable \<and>
     (\<forall>v\<in>set numerical_variable.
        \<exists>f p. f_oneway (all_groups df categorical_variable v) = Inr (f, p) \<and>
              dict_get (data styled) v = Some [(''F-Statistics'', f), (''p-value'', p)])"
proof -
  have ok: "\<forall>v\<in>set numerical_variable. \<exists>r. f_oneway (all_groups df categorical_variable v) = Inr r"
    using assms(3,5) all_groups_nonempty [OF assms(4)]
    by (simp add: length_all_groups)
  from anova_vars_total [where res="[]" and f_oneway=f_oneway, OF assms(1,2) ok] obtain results where
    run: "anova_vars f_oneway df categorical_variable numerical_variable [] = Inr results"
    by blast
  have keys: "map fst results = unique numerical_variable"
    using anova_vars_keys [OF assms(1,2) run] by simp
  have "\<forall>(k, e)\<in>set results. map fst e = [''F-Statistics'', ''p-value'']"
    using anova_vars_shape [OF assms(1,2) run] by simp
  then have frame: "frame_T results = results"
    by (rule frame_T_id) simp
  have ent: "\<exists>f p. f_oneway (all_groups df categorical_variable v) = Inr (f, p) \<and>
              dict_get results v = Some [(''F-Statistics'', f), (''p-value'', p)]"
    if "v \<in> set numerical_variable" for v
  proof -
    from ok that obtain f p where "f_oneway (all_groups df categorical_variable v) = Inr (f, p)"
      by fastforce
    then show ?thesis
      using that anova_vars_get [OF assms(1,2) run, of v]
      by (simp add: anova_entry_def)
  qed
  have "anova f_oneway df numerical_variable categorical_variable
      = Inr (style_map highlight_significant ''p-value'' results)"
    using run frame by (simp add: anova_def)
  with keys ent show ?thesis
    by (simp add: style_map_def)
qed

theorem anova_one_row_per_numerical_field_witness:
  "''season'' \<in> set (df_columns survey) \<and>
   set [''ndvi''] \<subseteq> set (df_columns survey) \<and>
   2 \<le> card (set (column survey ''season'')) \<and>
   list_all (\<lambda>c. cell_eq c c) (column survey ''season'') \<and>
   (\<exists>r. toy_ktest (all_groups survey ''season'' ''ndvi'') = Inr r) \<and>
   (\<exists>styled. anova toy_ktest survey [''ndvi''] ''season'' = Inr styled \<and>
     map fst (data styled) = unique [''ndvi''] \<and>
     (\<forall>v\<in>set [''ndvi''].
        \<exists>f p. toy_ktest (all_groups survey ''season'' v) = Inr (f, p) \<and>
              dict_get (data styled) v = Some [(''F-Statistics'', f), (''p-value'', p)]))"
proof -
  have h1: "''season'' \<in> set (df_columns survey)"
    by (simp add: survey_def)
  have h2: "set [''ndvi''] \<subseteq> set (df_columns survey)"
    by (simp add: survey_def)
  have h3: "2 \<le> card (set (column survey ''season''))"
    by (simp only: length_unique [symmetric]) (simp add: column_def survey_def mk_row_def)
  have h4: "\<forall>c\<in>set (column survey ''season''). cell_eq c c"
    by (simp add: column_def survey_def mk_row_def)
  have h5: "\<forall>v\<in>set [''ndvi''].
      2 \<le> length (all_groups survey ''season'' v) \<and> [] \<notin> set (all_groups survey ''season'' v) \<longrightarrow>
      (\<exists>r. toy_ktest (all_groups survey ''season'' v) = Inr r)"
    by (simp add: run_defs)
  have h4': "list_all (\<lambda>c. cell_eq c c) (column survey ''season'')"
    using h4 by (simp add: list_all_iff)
  have h5': "\<exists>r. toy_ktest (all_groups survey ''season'' ''ndvi'') = Inr r"
    by (simp add: run_defs)
  from anova_one_row_per_numerical_field [where f_oneway=toy_ktest, OF h1 h2 h3 h4 h5]
  have "\<exists>styled. anova toy_ktest survey [''ndvi''] ''season'' = Inr styled \<and>
     map fst (data styled) = unique [''ndvi''] \<and>
     (\<forall>v\<in>set [''ndvi''].
        \<exists>f p. toy_ktest (all_groups survey ''season'' v) = Inr (f, p) \<and>
              dict_get (data styled) v = Some [(''F-Statistics'', f), (''p-value'', p)])" .
  with h1 h2 h3 h4' h5' show ?thesis
    by (intro conjI)
qed

section \<open>Failures of the statistic computation\<close>

lemma kw_vars_error:
  assumes "c \<in> set (df_columns df)" "set nums \<subseteq> set (df_columns df)"
    and "kw_vars kruskal df c categories nums res = Inl e"
  shows "\<exists>gs y. kruskal gs = Inl y \<and> e = Raised y"
  using assms(2,3)
proof (induction nums arbitrary: res)
  case Nil
  then show ?case by simp
next
  case (Cons v vs)
  have v: "v \<in> set (df_columns df)" and vs: "set vs \<subseteq> set (df_columns df)"
    using Cons.prems by simp_all
  let ?gs = "map (\<lambda>category. group_values df c category v) categories"
  show ?case
  proof (cases "kruskal ?gs")
    case (Inl y)
    with Cons.prems(2) assms(1) v have "e = Raised y"
      by (simp add: collect_groups_Inr)
    with Inl show ?thesis by blast
  next
    case (Inr hp)
    with Cons.prems(2) assms(1) v obtain res1 where
      "kw_vars kruskal df c categories vs res1 = Inl e"
      by (auto simp: collect_groups_Inr split: prod.splits)
    from Cons.IH [OF vs this] show ?thesis .
  qed
qed

lemma kw_vars_fail:
  assumes "c \<in> set (df_columns df)" "set nums \<subseteq> set (df_columns df)"
    and "v \<in> set nums" "kruskal (all_groups df c v) = Inl x"
  shows "\<exists>e. kw_vars kruskal df c (unique (column df c)) nums res = Inl e"
  using assms(2,3)
proof (induction nums arbitrary: res)
  case Nil
  then show ?case by simp
next
  case (Cons w ws)
  have w: "w \<in> set (df_columns df)" and ws: "set ws \<subseteq> set (df_columns df)"
    using Cons.prems by simp_all
  show ?case
  proof (cases "kruskal (all_groups df c w)")
    case (Inl y)
    with assms(1) w show ?thesis
      by (simp add: collect_groups_Inr all_groups_def)
  next
    case (Inr hp)
    with assms(4) have "w \<noteq> v" by auto
    with Cons.prems have "v \<in> set ws" by simp
    from Cons.IH [OF ws this] Inr assms(1) w show ?thesis
      by (simp add: collect_groups_Inr all_groups_def split: prod.splits)
  qed
qed

lemma kw_cats_fail:
  assumes "set cats \<subseteq> set (df_columns df)" "set nums \<subseteq> set (df_columns df)"
    and "c \<in> set cats" "3 \<le> card (set (column df c))"
    and "v \<in> set nums" "kruskal (all_groups df c v) = Inl x"
  shows "\<exists>gs y. kruskal gs = Inl y \<and> kw_cats kruskal df cats nums res = Inl (Raised y)"
  using assms(1,3)
proof (induction cats arbitrary: res)
  case Nil
  then show ?case by simp
next
  case (Cons h hs)
  have h: "h \<in> set (df_columns df)" and hs: "set hs \<subseteq> set (df_columns df)"
    using Cons.prems by simp_all
  show ?case
  proof (cases "3 \<le> card (set (column df h))")
    case False
    with assms(4) have "h \<noteq> c" by auto
    with Cons.prems have "c \<in> set hs" by simp
    from Cons.IH [OF hs this] False h show ?thesis
      by (simp add: getitem_col_def length_unique)
  next
    case True
    show ?thesis
    proof (cases "kw_vars kruskal df h (unique (column df h)) nums res")
      case (Inl e)
      from kw_vars_error [OF h assms(2) Inl] obtain gs y where
        "kruskal gs = Inl y" "e = Raised y"
        by blast
      with Inl True h show ?thesis
        by (auto simp: getitem_col_def length_unique)
    next
      case (Inr res1)
      have "h \<noteq> c"
      proof
        assume "h = c"
        with kw_vars_fail [where kruskal=kruskal and c=c and df=df and nums=nums and v=v
            and x=x and res=res, OF _ assms(2,5,6)] h
        obtain e where "kw_vars kruskal df h (unique (column df h)) nums res = Inl e"
          by auto
        with Inr show False by simp
      qed
      with Cons.prems have "c \<in> set hs" by simp
      from Cons.IH [OF hs this] Inr True h show ?thesis
        by (simp add: getitem_col_def length_unique)
    qed
  qed
qed

lemma anova_vars_fail:
  assumes "cat \<in> set (df_columns df)" "set nums \<subseteq> set (df_columns df)"
    and "v \<in> set nums" "f_oneway (all_groups df cat v) = Inl x"
  shows "\<exists>gs y. f_oneway gs = Inl y \<and> anova_vars f_oneway df cat nums res = Inl (Raised y)"
  using assms(2,3)
proof (induction nums arbitrary: res)
  case Nil
  then show ?case by simp
next
  case (Cons w ws)
  have w: "w \<in> set (df_columns df)" and ws: "set ws \<subseteq> set (df_columns df)"
    using Cons.prems by simp_all
  show ?case
  proof (cases "f_oneway (all_groups df cat w)")
    case (Inl y)
    with assms(1) w have "anova_vars f_oneway df cat (w # ws) res = Inl (Raised y)"
      by (simp add: getitem_col_def collect_groups_Inr all_groups_def)
    with Inl show ?thesis by blast
  next
    case (Inr fp)
    with assms(4) have "w \<noteq> v" by auto
    with Cons.prems have "v \<in> set ws" by simp
    from Cons.IH [OF ws this] Inr assms(1) w show ?thesis
      by (simp add: getitem_col_def collect_groups_Inr all_groups_def split: prod.splits)
  qed
qed

text \<open>
  Claim C7 says that an empty group makes the statistic computation fail and that the
  failure aborts the run. The library's \<open>kruskal\<close> and \<open>f_oneway\<close> do not raise on an
  empty group: they return NaN for the statistic and for the p-value. In the sample
  dataset the field \<open>zone\<close> has a missing value, whose group is empty; both engines
  return, with a row of NaN.
\<close>

theorem empty_group_gives_nan_row:
  "[] \<in> set (all_groups survey ''zone'' ''ndvi'') \<and>
   kruskal_wallis_test toy_ktest survey [''zone''] [''ndvi'']
     = Inr (Styled \<lparr>data = [((''zone'', ''ndvi''), [(''H-statistic'', NaN), (''p-value'', NaN)])],
                     todo = [(highlight_significant, ''p-value'')]\<rparr>) \<and>
   anova toy_ktest survey [''ndvi''] ''zone''
     = Inr \<lparr>data = [(''ndvi'', [(''F-Statistics'', NaN), (''p-value'', NaN)])],
            todo = [(highlight_significant, ''p-value'')]\<rparr>"
  by (simp add: kruskal_wallis_test_def anova_def run_defs)

text \<open>
  Claim C7, amended. Let the supplied fields be columns of the dataset. For a supplied
  field pair, the groups that \<open>kruskal_wallis_test\<close> and \<open>anova\<close> build are those of all
  categories, one per distinct value and empty ones included: none is dropped before
  the statistic computation is called. If the computation raises on the groups of a
  pair that \<open>kruskal_wallis_test\<close> evaluates (the categorical field has 3 or more
  distinct values), the engine ends with a failure raised by the computation; likewise
  for \<open>anova\<close> and any of its pairs. Nothing is said of a computation that returns.
\<close>

theorem groups_kept_and_failure_propagates:
  assumes "set categorical_vars \<subseteq> set (df_columns df)"
    and "set numerical_variable \<subseteq> set (df_columns df)"
    and "categorical_variable \<in> set (df_columns df)"
    and "cat_var \<in> set categorical_vars"
    and "variable \<in> set numerical_variable"
  shows
    "(collect_groups df cat_var (unique (column df cat_var)) variable
        :: 'a error + _) = Inr (all_groups df cat_var variable) \<and>
     length (all_groups df cat_var variable) = card (set (column df cat_var)) \<and>
     (3 \<le> card (set (column df cat_var)) \<and> kruskal (all_groups df cat_var variable) = Inl x
      \<longrightarrow> (\<exists>gs y. kruskal gs = Inl y \<and>
             kruskal_wallis_test kruskal df categorical_vars numerical_variable = Inl (Raised y))) \<and>
     (collect_groups df categorical_variable (unique (column df categorical_variable)) variable
        :: 'b error + _) = Inr (all_groups df categorical_variable variable) \<and>
     length (all_groups df categorical_variable variable)
       = card (set (column df categorical_variable)) \<and>
     (f_oneway (all_groups df categorical_variable variable) = Inl x'
      \<longrightarrow> (\<exists>gs y. f_oneway gs = Inl y \<and>
             anova f_oneway df numerical_variable categorical_variable = Inl (Raised y)))"
proof (intro conjI impI)
  have c: "cat_var \<in> set (df_columns df)" and v: "variable \<in> set (df_columns df)"
    using assms by auto
  show "(collect_groups df cat_var (unique (column df cat_var)) variable
        :: 'a error + _) = Inr (all_groups df cat_var variable)"
    using c v by (simp add: collect_groups_Inr all_groups_def)
  show "(collect_groups df categorical_variable (unique (column df categorical_variable)) variable
        :: 'b error + _) = Inr (all_groups df categorical_variable variable)"
    using assms(3) v by (simp add: collect_groups_Inr all_groups_def)
  show "length (all_groups df cat_var variable) = card (set (column df cat_var))"
    by (rule length_all_groups)
  show "length (all_groups df categorical_variable variable)
       = card (set (column df categorical_variable))"
    by (rule length_all_groups)
next
  assume a: "3 \<le> card (set (column df cat_var)) \<and> kruskal (all_groups df cat_var variable) = Inl x"
  then have big: "3 \<le> card (set (column df cat_var))"
    and x: "kruskal (all_groups df cat_var variable) = Inl x"
    by simp_all
  from kw_cats_fail [where kruskal=kruskal and res="[]", OF assms(1,2,4) big assms(5) x]
  obtain gs y where "kruskal gs = Inl y"
    "kw_cats kruskal df categorical_vars numerical_variable [] = Inl (Raised y)"
    by blast
  then show "\<exists>gs y. kruskal gs = Inl y \<and>
      kruskal_wallis_test kruskal df categorical_vars numerical_variable = Inl (Raised y)"
    by (auto simp: kruskal_wallis_test_def)
next
  assume x: "f_oneway (all_groups df categorical_variable variable) = Inl x'"
  from anova_vars_fail [where f_oneway=f_oneway and res="[]", OF assms(3,2,5) x]
  obtain gs y where "f_oneway gs = Inl y"
    "anova_vars f_oneway df categorical_variable numerical_variable [] = Inl (Raised y)"
    by blast
  then show "\<exists>gs y. f_oneway gs = Inl y \<and>
      anova f_oneway df numerical_variable categorical_variable = Inl (Raised y)"
    by (auto simp: anova_def)
qed


theorem groups_kept_and_failure_propagates_witness:
  "[] \<in> set (all_groups survey ''zone'' ''ndvi'') \<and>
   (collect_groups survey ''zone'' (unique (column survey ''zone'')) ''ndvi''
      :: string error + _) = Inr (all_groups survey ''zone'' ''ndvi'') \<and>
   length (all_groups survey ''zone'' ''ndvi'') = card (set (column survey ''zone'')) \<and>
   3 \<le> card (set (column survey ''season'')) \<and>
   toy_ktest (all_groups survey ''season'' ''site'') = Inl ''non-numeric data'' \<and>
   (\<exists>gs y. toy_ktest gs = Inl y \<and>
      kruskal_wallis_test toy_ktest survey [''season''] [''site''] = Inl (Raised y)) \<and>
   (\<exists>gs y. toy_ktest gs = Inl y \<and>
      anova toy_ktest survey [''site''] ''season'' = Inl (Raised y))"
proof -
  have z1: "set [''zone''] \<subseteq> set (df_columns survey)"
    and z2: "set [''ndvi''] \<subseteq> set (df_columns survey)"
    and z3: "''zone'' \<in> set (df_columns survey)"
    and z4: "''zone'' \<in> set [''zone'']"
    and z5: "''ndvi'' \<in> set [''ndvi'']"
    by (simp_all add: survey_def)
  have s1: "set [''season''] \<subseteq> set (df_columns survey)"
    and s2: "set [''site''] \<subseteq> set (df_columns survey)"
    and s3: "''season'' \<in> set (df_columns survey)"
    and s4: "''season'' \<in> set [''season'']"
    and s5: "''site'' \<in> set [''site'']"
    by (simp_all add: survey_def)
  have empty: "[] \<in> set (all_groups survey ''zone'' ''ndvi'')"
    by (simp add: run_defs)
  have season: "3 \<le> card (set (column survey ''season''))"
    by (simp only: length_unique [symmetric]) (simp add: column_def survey_def mk_row_def)
  have fails: "toy_ktest (all_groups survey ''season'' ''site'') = Inl ''non-numeric data''"
    by (simp add: run_defs)
  note zone = groups_kept_and_failure_propagates
    [where kruskal=toy_ktest and f_oneway=toy_ktest and 'a=string
       and x="''non-numeric data''" and x'="''non-numeric data''", OF z1 z2 z3 z4 z5]
  note labels = groups_kept_and_failure_propagates
    [where kruskal=toy_ktest and f_oneway=toy_ktest and x="''non-numeric data''"
       and x'="''non-numeric data''", OF s1 s2 s3 s4 s5]
  have g1: "(collect_groups survey ''zone'' (unique (column survey ''zone'')) ''ndvi''
      :: string error + _) = Inr (all_groups survey ''zone'' ''ndvi'')"
    by (rule zone [THEN conjunct1])
  have g2: "length (all_groups survey ''zone'' ''ndvi'') = card (set (column survey ''zone''))"
    by (rule zone [THEN conjunct2, THEN conjunct1])
  from labels season fails have r1: "\<exists>gs y. toy_ktest gs = Inl y \<and>
      kruskal_wallis_test toy_ktest survey [''season''] [''site''] = Inl (Raised y)"
    by blast
  from labels fails have r2: "\<exists>gs y. toy_ktest gs = Inl y \<and>
      anova toy_ktest survey [''site''] ''season'' = Inl (Raised y)"
    by blast
  from empty g1 g2 season fails r1 r2 show ?thesis
    by (intro conjI)
qed

section \<open>The dataset and the numbers of the table are left alone\<close>

lemmas action_defs = returns_def then_do_def evaluate_def library_def read_col_def
  read_masked_col_def read_group_def

lemma read_group_eq: "read_group cat_var category variable df =
    (select_group df cat_var category variable, df)"
  by (simp add: action_defs select_group_def split: sum.splits)

lemma read_groups_eq: "read_groups cat_var categories variable df =
    (collect_groups df cat_var categories variable, df)"
  by (induction categories)
     (simp_all add: returns_def then_do_def read_group_eq split: sum.splits)

lemma mw_pair_run_eq: "mw_pair_run mwu cat_var variable results df =
    (mw_pair mwu df cat_var variable results, df)"
  by (simp add: mw_pair_run_def mw_pair_def returns_def then_do_def read_col_def library_def
        read_group_eq Let_def split: sum.splits prod.splits)

lemma mw_vars_run_eq: "for_each nums (mw_pair_run mwu cat_var) results df =
    (mw_vars mwu df cat_var nums results, df)"
  by (induction nums arbitrary: results)
     (simp_all add: returns_def then_do_def mw_pair_run_eq split: sum.splits)

lemma mw_cats_run_eq:
  "for_each cats (\<lambda>cat_var. for_each nums (mw_pair_run mwu cat_var)) results df =
    (mw_cats mwu df cats nums results, df)"
  by (induction cats arbitrary: results)
     (simp_all add: returns_def then_do_def mw_vars_run_eq split: sum.splits)

lemma mann_whitney_test_run_eq:
  "mann_whitney_test_run mwu cats nums df = (mann_whitney_test mwu df cats nums, df)"
  by (simp add: mann_whitney_test_run_def mann_whitney_test_def returns_def then_do_def
        evaluate_def mw_cats_run_eq split: sum.splits)

lemma kw_pair_run_eq:
  "for_each nums (kw_pair_run kruskal cat_var categories) results df =
    (kw_vars kruskal df cat_var categories nums results, df)"
  by (induction nums arbitrary: results)
     (simp_all add: kw_pair_run_def returns_def then_do_def library_def read_groups_eq
        split: sum.splits prod.splits)

lemma kw_cats_run_eq:
  "for_each cats (kw_field_run kruskal nums) results df =
    (kw_cats kruskal df cats nums results, df)"
  by (induction cats arbitrary: results)
     (simp_all add: kw_field_run_def returns_def then_do_def read_col_def kw_pair_run_eq Let_def
        split: sum.splits)

lemma kruskal_wallis_test_run_eq:
  "kruskal_wallis_test_run kruskal cats nums df = (kruskal_wallis_test kruskal df cats nums, df)"
  by (simp add: kruskal_wallis_test_run_def kruskal_wallis_test_def returns_def then_do_def
        evaluate_def kw_cats_run_eq split: sum.splits)

lemma anova_vars_run_eq:
  "for_each nums (anova_pair_run f_oneway cat) results df =
    (anova_vars f_oneway df cat nums results, df)"
  by (induction nums arbitrary: results)
     (simp_all add: anova_pair_run_def returns_def then_do_def library_def read_col_def
        read_groups_eq split: sum.splits prod.splits)

lemma anova_run_eq:
  "anova_run f_oneway nums cat df = (anova f_oneway df nums cat, df)"
  by (simp add: anova_run_def anova_def returns_def then_do_def anova_vars_run_eq
        split: sum.splits)

text \<open>
  Claim C9. Run as actions on the dataset, \<open>mann_whitney_test\<close>,
  \<open>kruskal_wallis_test\<close> and \<open>anova\<close> leave the dataset as they found it, whether they
  return or raise, and what they return or raise is the value of the engine on that
  dataset. The annotation step keeps the result table as the data of the styler and
  only registers the highlighting function for the p-value column.
\<close>

theorem dataset_and_table_unchanged:
  "mann_whitney_test_run mannwhitneyu categorical_vars numerical_variable df
     = (mann_whitney_test mannwhitneyu df categorical_vars numerical_variable, df) \<and>
   kruskal_wallis_test_run kruskal categorical_vars numerical_variable df
     = (kruskal_wallis_test kruskal df categorical_vars numerical_variable, df) \<and>
   anova_run f_oneway numerical_variable categorical_variable df
     = (anova f_oneway df numerical_variable categorical_variable, df) \<and>
   data (style_map highlight_significant ''p-value'' results_df) = results_df \<and>
   todo (style_map highlight_significant ''p-value'' results_df)
     = [(highlight_significant, ''p-value'')]"
  by (simp add: mann_whitney_test_run_eq kruskal_wallis_test_run_eq anova_run_eq style_map_def)

section \<open>The Omnibus Rank Test\<close>

lemma comp_vars_keys:
  assumes "(comp_vars results c nums acc :: 'e error + _) = Inr d" "distinct (map fst acc)"
  shows "map fst d = unique (map fst acc @ map (Pair c) nums)"
  using assms
proof (induction nums arbitrary: acc)
  case Nil
  then show ?case by (simp add: unique_distinct)
next
  case (Cons v vs)
  from Cons.prems(1) obtain e where
    run: "(comp_vars results c vs (dict_set acc (c, v) e) :: 'e error + _) = Inr d"
    by (auto split: option.splits)
  let ?acc1 = "dict_set acc (c, v) e"
  have k1: "map fst ?acc1 = unique (map fst acc @ [(c, v)])"
    using Cons.prems(2) by (simp add: keys_dict_set unique_snoc)
  then have d1: "distinct (map fst ?acc1)"
    by (simp add: distinct_unique)
  have "unique (map fst ?acc1 @ map (Pair c) vs) = unique (map fst acc @ map (Pair c) (v # vs))"
    using unique_unique_append [of "map fst acc @ [(c, v)]" "map (Pair c) vs"] k1 by simp
  with Cons.IH [OF run d1] show ?case
    by simp
qed

lemma comp_cats_keys:
  assumes "(comp_cats results cats nums acc :: 'e error + _) = Inr d" "distinct (map fst acc)"
  shows "map fst d = unique (map fst acc @ List.product cats nums)"
  using assms
proof (induction cats arbitrary: acc)
  case Nil
  then show ?case by (simp add: unique_distinct)
next
  case (Cons c cs)
  from Cons.prems(1) obtain acc1 where
    one: "(comp_vars results c nums acc :: 'e error + _) = Inr acc1"
    and rest: "(comp_cats results cs nums acc1 :: 'e error + _) = Inr d"
    by (auto split: sum.splits)
  have k1: "map fst acc1 = unique (map fst acc @ map (Pair c) nums)"
    using comp_vars_keys [OF one Cons.prems(2)] .
  then have d1: "distinct (map fst acc1)"
    by (simp add: distinct_unique)
  have "unique (map fst acc1 @ List.product cs nums)
      = unique (map fst acc @ List.product (c # cs) nums)"
    using unique_unique_append [of "map fst acc @ map (Pair c) nums" "List.product cs nums"] k1
    by simp
  with Cons.IH [OF rest d1] show ?case
    by simp
qed

lemma keys_frame_T: "map fst (frame_T d) = map fst d"
  by (simp add: frame_T_def Let_def case_prod_unfold comp_def)

lemma count_distinct_key:
  "distinct (map fst d) \<Longrightarrow>
   length (filter (\<lambda>r. fst r = k) d) = (if k \<in> set (map fst d) then 1 else 0)"
  by (induction d) (auto simp: filter_empty_conv image_iff)

lemma dict_all_None: "(\<forall>k. dict_get d k = None) \<longleftrightarrow> d = []"
  by (cases d) (auto simp: dict_get_Nil dict_get_Cons)

lemma kruskal_rows:
  assumes "set categorical_vars \<subseteq> set (df_columns df)"
    and "set numerical_variable \<subseteq> set (df_columns df)"
    and "kruskal_wallis_test kruskal df categorical_vars numerical_variable = Inr out"
    and "c \<in> set categorical_vars" "v \<in> set numerical_variable"
  shows "length (filter (\<lambda>r. fst r = (c, v)) (rows_of out))
           = (if 3 \<le> card (set (column df c)) then 1 else 0)"
proof -
  from assms(3) obtain results where
    run: "kw_cats kruskal df categorical_vars numerical_variable [] = Inr results"
    by (auto simp: kruskal_wallis_test_def split: sum.splits)
  have present: "dict_get results c' = None \<longleftrightarrow>
      \<not> (c' \<in> set categorical_vars \<and> 3 \<le> card (set (column df c')))" for c'
    using kw_cats_present [OF assms(1) run, of c'] assms(5) by (auto simp: dict_get_Nil)
  show ?thesis
  proof (cases "results = []")
    case True
    with assms(3) run have "out = Frame []"
      by (simp add: kruskal_wallis_test_def)
    moreover from True present [of c] assms(4) have "\<not> 3 \<le> card (set (column df c))"
      by (simp add: dict_get_Nil)
    ultimately show ?thesis by simp
  next
    case False
    with assms(3) run obtain d where
      tab: "(comp_cats results categorical_vars numerical_variable []
               :: 'a error + _) = Inr d"
      and out: "out = Styled (style_map highlight_significant ''p-value'' (frame_T d))"
      by (auto simp: kruskal_wallis_test_def results_table_def split: sum.splits)
    have "\<not> (\<exists>c\<in>set categorical_vars. dict_get results c = None)"
    proof
      assume missing: "\<exists>c\<in>set categorical_vars. dict_get results c = None"
      have "numerical_variable \<noteq> []"
        using assms(5) by auto
      from comp_cats_missing [OF this missing, of "[]"] obtain k where
        "(comp_cats results categorical_vars numerical_variable [] :: 'a error + _)
           = Inl (KeyError k)"
        by blast
      with tab show False by simp
    qed
    with assms(4) present [of c] have big: "3 \<le> card (set (column df c))"
      by auto
    have keys: "map fst (frame_T d) = unique (List.product categorical_vars numerical_variable)"
      using comp_cats_keys [OF tab] by (simp add: keys_frame_T)
    then have "distinct (map fst (frame_T d))"
      by (simp add: distinct_unique)
    from count_distinct_key [OF this, of "(c, v)"] keys assms(4,5) big out show ?thesis
      by (simp add: set_unique style_map_def)
  qed
qed

text \<open>
  Claim C5. When the supplied fields are columns of the dataset and the library's
  computation returns for the pairs it is called on, the loops of \<open>kruskal_wallis_test\<close>
  finish. For a supplied categorical field with 3 or more distinct values, the keys of
  its results are the supplied numerical fields, each once and in the supplied order,
  and the entry of each is the H statistic and the p-value that the library returns for
  the groups of all categories. A field with fewer than 3 distinct values, or one that
  was not supplied, has no results at all. Whenever the engine returns, what it returns
  has exactly one row for a supplied numerical field under a supplied categorical field
  with 3 or more distinct values, and no row under a field with fewer than 3.
\<close>

theorem kruskal_entries_and_rows:
  assumes "set categorical_vars \<subseteq> set (df_columns df)"
    and "set numerical_variable \<subseteq> set (df_columns df)"
    and "\<forall>c\<in>set categorical_vars. 3 \<le> card (set (column df c)) \<longrightarrow>
      (\<forall>v\<in>set numerical_variable. \<exists>r. kruskal (all_groups df c v) = Inr r)"
  shows "(\<exists>results. kw_cats kruskal df categorical_vars numerical_variable [] = Inr results \<and>
     (\<forall>c. if c \<in> set categorical_vars \<and> 3 \<le> card (set (column df c))
          then inner_keys results c = unique numerical_variable \<and>
               (\<forall>v\<in>set numerical_variable.
                  \<exists>h p. kruskal (all_groups df c v) = Inr (h, p) \<and>
                        entry_of results c v = Some [(''H-statistic'', h), (''p-value'', p)])
          else dict_get results c = None)) \<and>
    (\<forall>out. kruskal_wallis_test kruskal df categorical_vars numerical_variable = Inr out \<longrightarrow>
       (\<forall>c\<in>set categorical_vars. \<forall>v\<in>set numerical_variable.
          length (filter (\<lambda>r. fst r = (c, v)) (rows_of out))
            = (if 3 \<le> card (set (column df c)) then 1 else 0)))"
  using kw_loop_entries [where kruskal=kruskal, OF assms]
    kruskal_rows [where kruskal=kruskal, OF assms(1,2)]
  by blast

theorem kruskal_entries_and_rows_witness:
  "set [''season'', ''region''] \<subseteq> set (df_columns survey) \<and>
   set [''ndvi''] \<subseteq> set (df_columns survey) \<and>
   3 \<le> card (set (column survey ''season'')) \<and>
   \<not> 3 \<le> card (set (column survey ''region'')) \<and>
   (\<exists>results. kw_cats toy_ktest survey [''season'', ''region''] [''ndvi''] [] = Inr results \<and>
     (\<forall>c. if c \<in> set [''season'', ''region''] \<and> 3 \<le> card (set (column survey c))
          then inner_keys results c = unique [''ndvi''] \<and>
               (\<forall>v\<in>set [''ndvi''].
                  \<exists>h p. toy_ktest (all_groups survey c v) = Inr (h, p) \<and>
                        entry_of results c v = Some [(''H-statistic'', h), (''p-value'', p)])
          else dict_get results c = None)) \<and>
   (\<exists>out. kruskal_wallis_test toy_ktest survey [''season''] [''ndvi''] = Inr out \<and>
      length (filter (\<lambda>r. fst r = (''season'', ''ndvi'')) (rows_of out)) = 1)"
proof -
  have h1: "set [''season'', ''region''] \<subseteq> set (df_columns survey)"
    by (simp add: survey_def)
  have h1': "set [''season''] \<subseteq> set (df_columns survey)"
    by (simp add: survey_def)
  have h2: "set [''ndvi''] \<subseteq> set (df_columns survey)"
    by (simp add: survey_def)
  have c1: "3 \<le> card (set (column survey ''season''))"
    by (simp only: length_unique [symmetric]) (simp add: column_def survey_def mk_row_def)
  have c2: "\<not> 3 \<le> card (set (column survey ''region''))"
    by (simp only: length_unique [symmetric]) (simp add: column_def survey_def mk_row_def)
  have ok: "\<exists>r. toy_ktest (all_groups survey ''season'' ''ndvi'') = Inr r"
    by (simp add: run_defs)
  with c2 have h3: "\<forall>c\<in>set [''season'', ''region'']. 3 \<le> card (set (column survey c)) \<longrightarrow>
      (\<forall>v\<in>set [''ndvi'']. \<exists>r. toy_ktest (all_groups survey c v) = Inr r)"
    by simp
  from ok have h3': "\<forall>c\<in>set [''season'']. 3 \<le> card (set (column survey c)) \<longrightarrow>
      (\<forall>v\<in>set [''ndvi'']. \<exists>r. toy_ktest (all_groups survey c v) = Inr r)"
    by simp
  note loops = kruskal_entries_and_rows [where kruskal=toy_ktest, OF h1 h2 h3, THEN conjunct1]
  note rows = kruskal_entries_and_rows [where kruskal=toy_ktest, OF h1' h2 h3', THEN conjunct2]
  obtain out where out: "kruskal_wallis_test toy_ktest survey [''season''] [''ndvi''] = Inr out"
    by (simp add: kruskal_wallis_test_def run_defs)
  with rows c1 have "length (filter (\<lambda>r. fst r = (''season'', ''ndvi'')) (rows_of out)) = 1"
    by simp
  with out have tab: "\<exists>out. kruskal_wallis_test toy_ktest survey [''season''] [''ndvi''] = Inr out \<and>
      length (filter (\<lambda>r. fst r = (''season'', ''ndvi'')) (rows_of out)) = 1"
    by blast
  from h1 h2 c1 c2 loops tab show ?thesis
    by (intro conjI)
qed

end
